theory Spec2Isabelle
  imports Complex_Main "HOL-Library.Word" "HOL-Library.Monad_Syntax" "HOL-Library.Product_Lexorder"
begin

section \<open>Conventions of the embedding\<close>

text \<open>
  The development embeds \<^verbatim>\<open>internal/hnsw/csrc/vector_search.c\<close>.

  \<^item> A C \<^verbatim>\<open>int\<close> is an \<^typ>\<open>int\<close>; where the source computes on values read from an
    untrusted buffer, the 32-bit wrap-around is written out (\<open>wrap32\<close> below).
  \<^item> A C \<^verbatim>\<open>float\<close> is a \<^typ>\<open>real\<close>: rounding, infinities and NaN are outside the
    model. \<open>FLT_MAX\<close> is the exact value of the largest finite single-precision float.
  \<^item> An array together with its element count is a list; a \<^verbatim>\<open>Vector\<close>
    (\<^verbatim>\<open>data\<close>, \<^verbatim>\<open>len\<close>) is the list of its \<^verbatim>\<open>len\<close> floats.
  \<^item> A function of the source whose execution would be undefined behaviour in C (a read
    or write outside an array, a null or indeterminate pointer that is dereferenced or
    freed) yields \<open>None\<close>; so does a loop that does not terminate. A defined execution
    yields \<open>Some\<close> of its result.
  \<^item> A pointer result that the source may return as \<^verbatim>\<open>NULL\<close> is a \<open>ptr\<close>.
\<close>

datatype 'a ptr = Null | Ptr 'a

type_synonym Vector = "real list"

definition FLT_MAX :: real where
  "FLT_MAX = (2 ^ 24 - 1) * 2 ^ 104"

definition len :: "Vector \<Rightarrow> int" where
  "len v = int (length v)"

section \<open>Utility functions\<close>

text \<open>The accumulation loop of \<^verbatim>\<open>calculate_euclidean_distance\<close> (lines 19--23).\<close>

fun distance_squared_loop :: "real list \<Rightarrow> real list \<Rightarrow> real \<Rightarrow> real" where
  "distance_squared_loop (a # as) (b # bs) distance_squared =
     distance_squared_loop as bs (distance_squared + (a - b) * (a - b))"
| "distance_squared_loop _ _ distance_squared = distance_squared"

definition calculate_euclidean_distance :: "Vector \<Rightarrow> Vector \<Rightarrow> real" where
  "calculate_euclidean_distance vector_a vector_b =
     (if len vector_a \<noteq> len vector_b then FLT_MAX
      else sqrt (distance_squared_loop vector_a vector_b 0))"

section \<open>Priority queue for search candidates\<close>

record SearchCandidate =
  node_id :: int
  distance :: real

text \<open>
  The list \<open>candidates\<close> holds the live slots \<^verbatim>\<open>candidates[0 .. size-1]\<close>; the field
  \<^verbatim>\<open>size\<close> of the source is its length.
\<close>

record PriorityQueue =
  candidates :: "SearchCandidate list"
  capacity :: int
  is_max_heap :: bool

definition queue_size :: "PriorityQueue \<Rightarrow> int" where
  "queue_size queue = int (length (candidates queue))"

definition create_priority_queue :: "int \<Rightarrow> bool \<Rightarrow> PriorityQueue" where
  "create_priority_queue cap is_max =
     \<lparr>candidates = [], capacity = cap, is_max_heap = is_max\<rparr>"

definition swap_candidates :: "PriorityQueue \<Rightarrow> nat \<Rightarrow> nat \<Rightarrow> PriorityQueue" where
  "swap_candidates queue a b =
     queue\<lparr>candidates := (candidates queue)[a := candidates queue ! b, b := candidates queue ! a]\<rparr>"

text \<open>
  \<^verbatim>\<open>heapify_up\<close> (lines 67--79). The parent of slot 0 is slot 0 in C
  (\<^verbatim>\<open>(0 - 1) / 2\<close> truncates to 0), as in natural-number arithmetic here, so the test
  \<^verbatim>\<open>parent_index < 0\<close> of the source never fires.
\<close>

definition should_swap :: "PriorityQueue \<Rightarrow> nat \<Rightarrow> nat \<Rightarrow> bool" where
  "should_swap queue child_index parent_index =
     (if is_max_heap queue
      then distance (candidates queue ! child_index) > distance (candidates queue ! parent_index)
      else distance (candidates queue ! child_index) < distance (candidates queue ! parent_index))"

function heapify_up :: "PriorityQueue \<Rightarrow> nat \<Rightarrow> PriorityQueue" where
  "heapify_up queue child_index =
     (if should_swap queue child_index ((child_index - 1) div 2)
      then heapify_up (swap_candidates queue child_index ((child_index - 1) div 2))
             ((child_index - 1) div 2)
      else queue)"
  by pat_completeness auto
termination
proof (relation "measure (\<lambda>(queue, child_index). child_index)")
  show "wf (measure (\<lambda>(queue, child_index). child_index))" by simp
next
  fix queue :: PriorityQueue and child_index :: nat
  assume "should_swap queue child_index ((child_index - 1) div 2)"
  then have "child_index \<noteq> 0"
    by (cases "child_index = 0") (auto simp: should_swap_def split: if_splits)
  then show "((swap_candidates queue child_index ((child_index - 1) div 2),
               (child_index - 1) div 2), (queue, child_index))
             \<in> measure (\<lambda>(queue, child_index). child_index)"
    by simp
qed

declare heapify_up.simps [simp del]

text \<open>\<^verbatim>\<open>heapify_down\<close> (lines 81--104).\<close>

definition better_child :: "PriorityQueue \<Rightarrow> nat \<Rightarrow> nat \<Rightarrow> nat" where
  "better_child queue child target_index =
     (if child < length (candidates queue) \<and> should_swap queue child target_index
      then child else target_index)"

definition heapify_target :: "PriorityQueue \<Rightarrow> nat \<Rightarrow> nat" where
  "heapify_target queue parent_index =
     better_child queue (2 * parent_index + 2)
       (better_child queue (2 * parent_index + 1) parent_index)"

function heapify_down :: "PriorityQueue \<Rightarrow> nat \<Rightarrow> PriorityQueue" where
  "heapify_down queue parent_index =
     (if heapify_target queue parent_index \<noteq> parent_index
      then heapify_down (swap_candidates queue parent_index (heapify_target queue parent_index))
             (heapify_target queue parent_index)
      else queue)"
  by pat_completeness auto
termination
proof (relation "measure (\<lambda>(queue, parent_index). length (candidates queue) - parent_index)")
  show "wf (measure (\<lambda>(queue, parent_index). length (candidates queue) - parent_index))"
    by simp
next
  fix queue :: PriorityQueue and parent_index :: nat
  assume "heapify_target queue parent_index \<noteq> parent_index"
  then have "parent_index < heapify_target queue parent_index
             \<and> heapify_target queue parent_index < length (candidates queue)"
    by (auto simp: heapify_target_def better_child_def split: if_splits)
  then show "((swap_candidates queue parent_index (heapify_target queue parent_index),
               heapify_target queue parent_index), (queue, parent_index))
             \<in> measure (\<lambda>(queue, parent_index). length (candidates queue) - parent_index)"
    by (simp add: swap_candidates_def) arith
qed

declare heapify_down.simps [simp del]

text \<open>
  \<^verbatim>\<open>queue->candidates[0]\<close>. In a queue that holds nothing the slot is outside the live
  part of the array (and outside the allocation when the capacity is 0).
\<close>

definition root_candidate :: "PriorityQueue \<Rightarrow> SearchCandidate option" where
  "root_candidate queue = (case candidates queue of [] \<Rightarrow> None | slot0 # _ \<Rightarrow> Some slot0)"

text \<open>\<^verbatim>\<open>insert_candidate\<close> (lines 106--126).\<close>

definition insert_candidate :: "PriorityQueue \<Rightarrow> int \<Rightarrow> real \<Rightarrow> PriorityQueue option" where
  "insert_candidate queue new_id new_distance =
     (if queue_size queue < capacity queue
      then Some (heapify_up
             (queue\<lparr>candidates := candidates queue
                 @ [\<lparr>node_id = new_id, distance = new_distance\<rparr>]\<rparr>)
             (length (candidates queue)))
      else do {
        slot0 \<leftarrow> root_candidate queue;
        if is_max_heap queue \<and> new_distance < distance slot0
        then Some (heapify_down
               (queue\<lparr>candidates := (candidates queue)
                   [0 := \<lparr>node_id = new_id, distance = new_distance\<rparr>]\<rparr>) 0)
        else if \<not> is_max_heap queue \<and> new_distance > distance slot0
        then Some (heapify_down
               (queue\<lparr>candidates := (candidates queue)
                   [0 := \<lparr>node_id = new_id, distance = new_distance\<rparr>]\<rparr>) 0)
        else Some queue
      })"

text \<open>
  \<^verbatim>\<open>extract_top_candidate\<close> (lines 128--136): the root is returned, the last live
  slot moves to the root and is sifted down. On an empty queue the source reads slot 0 and
  makes \<^verbatim>\<open>size\<close> negative.
\<close>

definition extract_top_candidate :: "PriorityQueue \<Rightarrow> (SearchCandidate \<times> PriorityQueue) option" where
  "extract_top_candidate queue =
     (case candidates queue of
        [] \<Rightarrow> None
      | top_candidate # rest \<Rightarrow>
          if rest = [] then Some (top_candidate, queue\<lparr>candidates := []\<rparr>)
          else Some (top_candidate, heapify_down (queue\<lparr>candidates := last rest # butlast rest\<rparr>) 0))"

section \<open>HNSW nodes and graphs\<close>

text \<open>
  \<^verbatim>\<open>layer_connections[layer]\<close> is the list of the \<^verbatim>\<open>connection_counts[layer]\<close>
  neighbour ids stored at that layer, so the count array is derived from it.
\<close>

record HNSWNode =
  vector_id :: int
  maximum_layer :: int
  layer_connections :: "int list list"
  allocated_connection_sizes :: "int list"

definition connection_counts :: "HNSWNode \<Rightarrow> int list" where
  "connection_counts node = map (\<lambda>connections. int (length connections)) (layer_connections node)"

text \<open>
  \<open>HNSWTopology\<close> holds the two fields of \<^verbatim>\<open>HNSWGraph\<close> that the serializer reads and
  the deserializer assigns; \<open>HNSWGraph\<close> adds the remaining fields of the struct.
\<close>

record HNSWTopology =
  nodes :: "HNSWNode list"
  node_count :: int

record HNSWGraph = HNSWTopology +
  original_vectors :: "Vector list"
  entry_point_node_id :: int
  maximum_layer_in_graph :: int
  max_connections_per_node :: int
  max_connections_layer_zero :: int
  level_generation_factor :: real
  construction_search_width :: int

record VectorIndex =
  vectors :: "Vector list"
  index_len :: int
  hnsw_graph :: "HNSWGraph option"
  use_hnsw_optimization :: int

record SearchConfig =
  search_width :: int
  max_distance_computations :: int
  accuracy_threshold :: real
  use_approximate_search :: int

text \<open>Array reads: \<^verbatim>\<open>array[i]\<close> is defined for \<open>0 \<le> i < length array\<close> only.\<close>

definition element_at :: "'a list \<Rightarrow> int \<Rightarrow> 'a option" where
  "element_at array i = (if 0 \<le> i \<and> i < int (length array) then Some (array ! nat i) else None)"

section \<open>Search algorithms\<close>

text \<open>
  The test \<^verbatim>\<open>visited->size < search_width || neighbor_distance < visited->candidates[0].distance\<close>
  (lines 398--399 and 303--304).
\<close>

definition improves_candidates :: "PriorityQueue \<Rightarrow> int \<Rightarrow> real \<Rightarrow> bool option" where
  "improves_candidates visited width neighbor_distance =
     (if queue_size visited < width then Some True
      else map_option (\<lambda>slot0. neighbor_distance < distance slot0) (root_candidate visited))"

text \<open>The loop over the neighbours of the current node (lines 386--405).\<close>

fun explore_neighbors ::
  "HNSWGraph \<Rightarrow> Vector \<Rightarrow> int \<Rightarrow> int list
    \<Rightarrow> PriorityQueue \<times> PriorityQueue \<times> bool list
    \<Rightarrow> (PriorityQueue \<times> PriorityQueue \<times> bool list) option" where
  "explore_neighbors graph query width [] state = Some state"
| "explore_neighbors graph query width (neighbor_id # rest) (cands, visited, visited_flags) =
     do {
       flag \<leftarrow> element_at visited_flags neighbor_id;
       if flag then explore_neighbors graph query width rest (cands, visited, visited_flags)
       else do {
         neighbor_vector \<leftarrow> element_at (original_vectors graph) neighbor_id;
         improves \<leftarrow> improves_candidates visited width
                       (calculate_euclidean_distance query neighbor_vector);
         if improves then do {
           cands' \<leftarrow> insert_candidate cands neighbor_id
                       (calculate_euclidean_distance query neighbor_vector);
           visited' \<leftarrow> insert_candidate visited neighbor_id
                       (calculate_euclidean_distance query neighbor_vector);
           explore_neighbors graph query width rest
             (cands', visited', visited_flags[nat neighbor_id := True])
         }
         else explore_neighbors graph query width rest
                (cands, visited, visited_flags[nat neighbor_id := True])
       }
     }"

text \<open>
  The early-termination test
  \<^verbatim>\<open>visited->size >= search_width && current.distance > visited->candidates[0].distance\<close>
  (line 379).
\<close>

definition search_exhausted :: "PriorityQueue \<Rightarrow> int \<Rightarrow> SearchCandidate \<Rightarrow> bool option" where
  "search_exhausted visited width current =
     (if queue_size visited \<ge> width
      then map_option (\<lambda>slot0. distance current > distance slot0) (root_candidate visited)
      else Some False)"

text \<open>
  The neighbours a search step walks over (lines 384--387): none when the layer is above
  the node's top layer.
\<close>

definition neighbors_to_explore :: "HNSWGraph \<Rightarrow> int \<Rightarrow> int \<Rightarrow> int list option" where
  "neighbors_to_explore graph current_id layer =
     do {
       current_node \<leftarrow> element_at (nodes graph) current_id;
       if layer \<le> maximum_layer current_node
       then element_at (layer_connections current_node) layer
       else Some []
     }"

text \<open>
  The main loop of \<^verbatim>\<open>search_layer\<close> (lines 375--407). It terminates because every
  insertion into \<open>candidates\<close> marks a node that was unmarked; the facts below are what the
  termination proof needs.
\<close>

lemma length_swap_candidates [simp]:
  "length (candidates (swap_candidates queue a b)) = length (candidates queue)"
  by (simp add: swap_candidates_def)

lemma length_heapify_up [simp]:
  "length (candidates (heapify_up queue i)) = length (candidates queue)"
proof (induction queue i rule: heapify_up.induct)
  case (1 queue child_index)
  then show ?case by (subst heapify_up.simps) simp
qed

lemma length_heapify_down [simp]:
  "length (candidates (heapify_down queue i)) = length (candidates queue)"
proof (induction queue i rule: heapify_down.induct)
  case (1 queue parent_index)
  then show ?case by (subst heapify_down.simps) simp
qed



lemma length_insert_candidate:
  "insert_candidate queue n d = Some queue'
   \<Longrightarrow> length (candidates queue') \<le> Suc (length (candidates queue))"
  unfolding insert_candidate_def
  by (auto split: if_splits bind_splits)

lemma length_extract_top_candidate:
  "extract_top_candidate queue = Some (top_candidate, queue')
   \<Longrightarrow> Suc (length (candidates queue')) = length (candidates queue)"
  unfolding extract_top_candidate_def
  by (auto split: list.splits if_splits)

definition unvisited :: "bool list \<Rightarrow> nat" where
  "unvisited visited_flags = length (filter Not visited_flags)"

lemma unvisited_mark:
  "i < length flags \<Longrightarrow> \<not> flags ! i \<Longrightarrow> Suc (unvisited (flags[i := True])) = unvisited flags"
  unfolding unvisited_def
proof (induction flags arbitrary: i)
  case Nil
  then show ?case by simp
next
  case (Cons f fs)
  then show ?case by (cases i) auto
qed


lemma explore_neighbors_measure:
  "explore_neighbors graph query width ns (cands, visited, flags) = Some (cands', visited', flags')
   \<Longrightarrow> length (candidates cands') + unvisited flags' \<le> length (candidates cands) + unvisited flags"
proof (induction ns arbitrary: cands visited flags)
  case Nil
  then show ?case by simp
next
  case (Cons n ns)
  show ?case
  proof (cases "element_at flags n")
    case None
    with Cons.prems show ?thesis by simp
  next
    case (Some flag)
    then have range: "0 \<le> n" "nat n < length flags" and flag: "flag = flags ! nat n"
      by (auto simp: element_at_def split: if_splits)
    show ?thesis
    proof (cases flag)
      case True
      with Cons Some show ?thesis by simp
    next
      case False
      with range flag have mark: "Suc (unvisited (flags[nat n := True])) = unvisited flags"
        by (simp add: unvisited_mark)
      from Cons.prems Some False show ?thesis
        using mark
        by (auto split: bind_splits if_splits dest!: Cons.IH length_insert_candidate)
    qed
  qed
qed

function search_loop ::
  "HNSWGraph \<Rightarrow> Vector \<Rightarrow> int \<Rightarrow> int
    \<Rightarrow> PriorityQueue \<times> PriorityQueue \<times> bool list
    \<Rightarrow> (PriorityQueue \<times> PriorityQueue \<times> bool list) option" where
  "search_loop graph query layer width (cands, visited, visited_flags) =
     (if queue_size cands > 0 then
        (case extract_top_candidate cands of
           None \<Rightarrow> None
         | Some (current, cands') \<Rightarrow>
             (case search_exhausted visited width current of
                None \<Rightarrow> None
              | Some True \<Rightarrow> Some (cands', visited, visited_flags)
              | Some False \<Rightarrow>
                  (case neighbors_to_explore graph (node_id current) layer of
                     None \<Rightarrow> None
                   | Some neighbor_ids \<Rightarrow>
                       (case explore_neighbors graph query width neighbor_ids
                               (cands', visited, visited_flags) of
                          None \<Rightarrow> None
                        | Some state \<Rightarrow> search_loop graph query layer width state))))
      else Some (cands, visited, visited_flags))"
  by pat_completeness auto
termination
proof (relation "measure (\<lambda>(graph, query, layer, width, cands, visited, visited_flags).
                    length (candidates cands) + unvisited visited_flags)")
  show "wf (measure (\<lambda>(graph, query, layer, width, cands, visited, visited_flags).
                    length (candidates cands) + unvisited visited_flags))"
    by simp
next
  fix graph :: HNSWGraph and query :: Vector and layer width :: int
    and cands visited :: PriorityQueue and visited_flags :: "bool list"
    and extracted current cands' neighbor_ids state
  assume "extract_top_candidate cands = Some extracted" "(current, cands') = extracted"
    and "explore_neighbors graph query width neighbor_ids (cands', visited, visited_flags)
         = Some state"
  then have "Suc (length (candidates cands')) = length (candidates cands)"
    and "length (candidates (fst state)) + unvisited (snd (snd state))
         \<le> length (candidates cands') + unvisited visited_flags"
    by (auto dest: length_extract_top_candidate
        intro: explore_neighbors_measure [where cands' = "fst state" and visited' = "fst (snd state)"])
  then show "((graph, query, layer, width, state),
              (graph, query, layer, width, cands, visited, visited_flags))
             \<in> measure (\<lambda>(graph, query, layer, width, cands, visited, visited_flags).
                    length (candidates cands) + unvisited visited_flags)"
    by (cases state) auto
qed

declare search_loop.simps [simp del]

text \<open>
  The result loop of \<^verbatim>\<open>search_layer\<close> (lines 414--417): \<^verbatim>\<open>results[result_index]\<close>
  is written for \<^verbatim>\<open>result_index\<close> from \<^verbatim>\<open>result_count - 1\<close> down to 0, so each
  extracted id goes in front of the ids extracted before it.
\<close>

fun extract_results :: "nat \<Rightarrow> PriorityQueue \<Rightarrow> int list \<Rightarrow> int list option" where
  "extract_results 0 visited results = Some results"
| "extract_results (Suc remaining) visited results =
     (case extract_top_candidate visited of
        None \<Rightarrow> None
      | Some (result, visited') \<Rightarrow> extract_results remaining visited' (node_id result # results))"

text \<open>
  \<^verbatim>\<open>search_layer\<close> (lines 364--424), in two parts. \<open>search_layer_visit\<close> is the
  function up to the end of its main loop (lines 365--407) and gives the two queues and the
  flags as the loop leaves them; \<^verbatim>\<open>visited_flags\<close> has \<^verbatim>\<open>node_count\<close> entries.
  \<open>search_layer\<close> then drains \<^verbatim>\<open>visited\<close> (lines 409--417); the returned list is
  \<^verbatim>\<open>results\<close> and its length is \<^verbatim>\<open>*result_count\<close>.
\<close>

definition search_layer_visit ::
  "HNSWGraph \<Rightarrow> Vector \<Rightarrow> int \<Rightarrow> int \<Rightarrow> int
    \<Rightarrow> (PriorityQueue \<times> PriorityQueue \<times> bool list) option" where
  "search_layer_visit graph query entry_point layer width =
     do {
       entry_vector \<leftarrow> element_at (original_vectors graph) entry_point;
       cands \<leftarrow> insert_candidate (create_priority_queue width False) entry_point
                  (calculate_euclidean_distance query entry_vector);
       visited \<leftarrow> insert_candidate (create_priority_queue (width * 2) True) entry_point
                  (calculate_euclidean_distance query entry_vector);
       _ \<leftarrow> element_at (replicate (nat (node_count graph)) False) entry_point;
       search_loop graph query layer width
         (cands, visited, (replicate (nat (node_count graph)) False)[nat entry_point := True])
     }"

definition search_layer ::
  "HNSWGraph \<Rightarrow> Vector \<Rightarrow> int \<Rightarrow> int \<Rightarrow> int \<Rightarrow> int list option" where
  "search_layer graph query entry_point layer width =
     do {
       (cands', visited', visited_flags') \<leftarrow>
          search_layer_visit graph query entry_point layer width;
       extract_results (length (candidates visited')) visited' []
     }"

text \<open>The descent of \<^verbatim>\<open>hnsw_knn_search\<close> from the top layer to layer 1 (lines 438--445).\<close>

function greedy_descent :: "HNSWGraph \<Rightarrow> Vector \<Rightarrow> int \<Rightarrow> int \<Rightarrow> int option" where
  "greedy_descent graph query layer current_closest =
     (if layer > 0 then
        (case search_layer graph query current_closest layer 1 of
           None \<Rightarrow> None
         | Some layer_results \<Rightarrow>
             greedy_descent graph query (layer - 1)
               (case layer_results of [] \<Rightarrow> current_closest | closest # _ \<Rightarrow> closest))
      else Some current_closest)"
  by pat_completeness auto
termination
  by (relation "measure (\<lambda>(graph, query, layer, current_closest). nat layer)") auto

declare greedy_descent.simps [simp del]

text \<open>
  \<^verbatim>\<open>hnsw_knn_search\<close> (lines 426--458). A null query is dereferenced by the first
  distance computation. The allocator is taken to succeed, also for a size of 0, except
  for a size above \<^verbatim>\<open>PTRDIFF_MAX\<close>, which is what a negative \<^verbatim>\<open>int\<close> count times
  \<^verbatim>\<open>sizeof(int)\<close> converts to: with a negative \<^verbatim>\<open>return_count\<close> the \<^verbatim>\<open>memcpy\<close>
  writes through the null result of \<^verbatim>\<open>malloc\<close>.
\<close>

definition hnsw_knn_search ::
  "VectorIndex \<Rightarrow> Vector option \<Rightarrow> int \<Rightarrow> SearchConfig option \<Rightarrow> int list ptr option" where
  "hnsw_knn_search index query k search_config =
     (case hnsw_graph index of
        None \<Rightarrow> Some Null
      | Some graph \<Rightarrow>
          do {
            query_vector \<leftarrow> query;
            current_closest \<leftarrow>
              greedy_descent graph query_vector (maximum_layer_in_graph graph)
                (entry_point_node_id graph);
            all_candidates \<leftarrow>
              search_layer graph query_vector current_closest 0
                (case search_config of Some config \<Rightarrow> search_width config | None \<Rightarrow> k * 2);
            if (if int (length all_candidates) < k then int (length all_candidates) else k) < 0
            then None
            else Some (Ptr (take
                   (nat (if int (length all_candidates) < k then int (length all_candidates) else k))
                   all_candidates))
          })"

definition approximate_search ::
  "VectorIndex \<Rightarrow> Vector option \<Rightarrow> int \<Rightarrow> int \<Rightarrow> int list ptr option" where
  "approximate_search index query k width =
     hnsw_knn_search index query k
       (Some \<lparr>search_width = width, max_distance_computations = width * 10,
              accuracy_threshold = 9 / 10, use_approximate_search = 1\<rparr>)"

definition beam_search ::
  "VectorIndex \<Rightarrow> Vector option \<Rightarrow> int \<Rightarrow> int \<Rightarrow> int list ptr option" where
  "beam_search index query k beam_width =
     hnsw_knn_search index query k
       (Some \<lparr>search_width = beam_width, max_distance_computations = beam_width * 5,
              accuracy_threshold = 95 / 100, use_approximate_search = 0\<rparr>)"

section \<open>Traditional brute-force search\<close>

definition INT_MAX :: int where
  "INT_MAX = 2 ^ 31 - 1"

text \<open>The shift loop (lines 511--514), on both arrays at once.\<close>

function shift_loop :: "nat \<Rightarrow> nat \<Rightarrow> int list \<times> real list \<Rightarrow> int list \<times> real list" where
  "shift_loop shift_index insertion_position (neighbors, distances) =
     (if shift_index > insertion_position
      then shift_loop (shift_index - 1) insertion_position
             (neighbors[shift_index := neighbors ! (shift_index - 1)],
              distances[shift_index := distances ! (shift_index - 1)])
      else (neighbors, distances))"
  by pat_completeness auto
termination
  by (relation "measure (\<lambda>(shift_index, insertion_position, arrays). shift_index)") auto

declare shift_loop.simps [simp del]

text \<open>
  The insertion loop (lines 508--519) for one stored vector; \<open>k\<close> is the length of the
  two arrays.
\<close>

function insertion_loop ::
  "nat \<Rightarrow> nat \<Rightarrow> real \<Rightarrow> int \<Rightarrow> int list \<times> real list \<Rightarrow> int list \<times> real list" where
  "insertion_loop k insertion_position current_distance vector_index (neighbors, distances) =
     (if insertion_position < k then
        (if current_distance < distances ! insertion_position
         then (case shift_loop (k - 1) insertion_position (neighbors, distances) of
                 (shifted_neighbors, shifted_distances) \<Rightarrow>
                   (shifted_neighbors[insertion_position := vector_index],
                    shifted_distances[insertion_position := current_distance]))
         else insertion_loop k (insertion_position + 1) current_distance vector_index
                (neighbors, distances))
      else (neighbors, distances))"
  by pat_completeness auto
termination
  by (relation "measure (\<lambda>(k, insertion_position, rest). k - insertion_position)") auto

declare insertion_loop.simps [simp del]

text \<open>
  The loop over the stored vectors (lines 505--520). The query is dereferenced, and
  \<^verbatim>\<open>index->vectors[vector_index]\<close> read, once per iteration.
\<close>

function brute_force_loop ::
  "VectorIndex \<Rightarrow> Vector option \<Rightarrow> nat \<Rightarrow> int \<Rightarrow> int list \<times> real list
    \<Rightarrow> (int list \<times> real list) option" where
  "brute_force_loop index query k vector_index (neighbors, distances) =
     (if vector_index < index_len index then
        (case query of
           None \<Rightarrow> None
         | Some query_vector \<Rightarrow>
             (case element_at (vectors index) vector_index of
                None \<Rightarrow> None
              | Some stored_vector \<Rightarrow>
                  brute_force_loop index query k (vector_index + 1)
                    (insertion_loop k 0
                       (calculate_euclidean_distance query_vector stored_vector)
                       vector_index (neighbors, distances))))
      else Some (neighbors, distances))"
  by pat_completeness auto
termination
  by (relation "measure (\<lambda>(index, query, k, vector_index, arrays).
                  nat (index_len index - vector_index))") auto

declare brute_force_loop.simps [simp del]

text \<open>
  \<^verbatim>\<open>knn_search\<close> (lines 484--524). With a negative \<open>k\<close> both allocations are refused,
  no loop body touches the arrays, and the null pointer \<^verbatim>\<open>neighbors\<close> is returned.
\<close>

definition knn_search :: "VectorIndex \<Rightarrow> Vector option \<Rightarrow> int \<Rightarrow> int list ptr option" where
  "knn_search index query k =
     (if use_hnsw_optimization index \<noteq> 0 \<and> hnsw_graph index \<noteq> None
      then hnsw_knn_search index query k
             (Some \<lparr>search_width = k * 4, max_distance_computations = INT_MAX,
                    accuracy_threshold = 1, use_approximate_search = 0\<rparr>)
      else
        (case brute_force_loop index query (nat k) 0
                (replicate (nat k) (- 1), replicate (nat k) FLT_MAX) of
           None \<Rightarrow> None
         | Some (neighbors, distances) \<Rightarrow> if k < 0 then Some Null else Some (Ptr neighbors)))"

definition create_index :: "Vector list \<Rightarrow> int \<Rightarrow> VectorIndex" where
  "create_index stored_vectors vector_count =
     \<lparr>vectors = stored_vectors, index_len = vector_count, hnsw_graph = None,
      use_hnsw_optimization = 0\<rparr>"

text \<open>
  The result the specification describes for the brute-force search, in its words: the
  ids of the stored vectors sorted by ascending distance to the query, ties broken by
  ascending id, cut to \<open>k\<close>, followed by \<open>-1\<close> sentinels when fewer than \<open>k\<close> vectors are
  stored.
\<close>

definition stored_distance :: "VectorIndex \<Rightarrow> Vector \<Rightarrow> nat \<Rightarrow> real" where
  "stored_distance index query i = calculate_euclidean_distance query (vectors index ! i)"

definition nearest_ids :: "VectorIndex \<Rightarrow> Vector \<Rightarrow> nat \<Rightarrow> int list" where
  "nearest_ids index query k =
     map int (take k (sort_key (\<lambda>i. (stored_distance index query i, i))
                        [0 ..< length (vectors index)]))
     @ replicate (k - length (vectors index)) (- 1)"

text \<open>The same over the stored vectors whose distance is strictly below \<open>FLT_MAX\<close>.\<close>

definition ids_below_max :: "VectorIndex \<Rightarrow> Vector \<Rightarrow> nat list" where
  "ids_below_max index query =
     sort_key (\<lambda>i. (stored_distance index query i, i))
       (filter (\<lambda>i. stored_distance index query i < FLT_MAX) [0 ..< length (vectors index)])"

definition nearest_ids_below_max :: "VectorIndex \<Rightarrow> Vector \<Rightarrow> nat \<Rightarrow> int list" where
  "nearest_ids_below_max index query k =
     map int (take k (ids_below_max index query))
     @ replicate (k - length (ids_below_max index query)) (- 1)"

section \<open>Serialization and deserialization\<close>

text \<open>
  The buffer is a list of bytes. An \<^verbatim>\<open>int\<close> occupies four bytes, least significant first
  (the byte order of the usual hosts; the format is host-endian), and is read back as a
  32-bit two's-complement number. \<open>wrap32\<close> is the value an \<^verbatim>\<open>int\<close> holds after an
  arithmetic result is cut to 32 bits.
\<close>

type_synonym byte = "8 word"

definition wrap32 :: "int \<Rightarrow> int" where
  "wrap32 x = (x + 2 ^ 31) mod 2 ^ 32 - 2 ^ 31"

definition int_of_bytes :: "byte \<Rightarrow> byte \<Rightarrow> byte \<Rightarrow> byte \<Rightarrow> int" where
  "int_of_bytes b0 b1 b2 b3 =
     wrap32 (uint b0 + 256 * uint b1 + 65536 * uint b2 + 16777216 * uint b3)"

text \<open>\<^verbatim>\<open>*((int*)ptr) = x\<close>: the four bytes stored.\<close>

definition write_int :: "int \<Rightarrow> byte list" where
  "write_int x = [word_of_int x, word_of_int (x div 256), word_of_int (x div 65536),
                  word_of_int (x div 16777216)]"

text \<open>\<^verbatim>\<open>*((const int*)ptr)\<close> at offset \<open>position\<close>: undefined when it passes the buffer's end.\<close>

definition read_int :: "byte list \<Rightarrow> nat \<Rightarrow> int option" where
  "read_int buffer position =
     (case drop position buffer of
        b0 # b1 # b2 # b3 # _ \<Rightarrow> Some (int_of_bytes b0 b1 b2 b3)
      | _ \<Rightarrow> None)"

subsection \<open>\<^verbatim>\<open>serialize_hnsw_graph\<close> (lines 634--704)\<close>

text \<open>
  The layers \<^verbatim>\<open>0 .. maximum_layer\<close> of a node, which both loops of the serializer walk
  over; reading them is undefined when the node's arrays are shorter.
\<close>

definition serialized_layers :: "HNSWNode \<Rightarrow> int list list option" where
  "serialized_layers node =
     (if maximum_layer node + 1 \<le> int (length (layer_connections node))
      then Some (take (nat (maximum_layer node + 1)) (layer_connections node))
      else None)"

text \<open>The contribution of one node to \<^verbatim>\<open>total_size\<close> (lines 652--658).\<close>

definition node_size :: "HNSWNode \<Rightarrow> int list list \<Rightarrow> int" where
  "node_size node layers =
     4 + 4 * (maximum_layer node + 1)
       + sum_list (map (\<lambda>connections. 4 + 4 * int (length connections)) layers)"

text \<open>The bytes written for one node (lines 676--698).\<close>

definition node_record :: "HNSWNode \<Rightarrow> int list list \<Rightarrow> byte list" where
  "node_record node layers =
     write_int (maximum_layer node)
     @ concat (map (\<lambda>connections. write_int (int (length connections))) layers)
     @ concat (map (\<lambda>connections. write_int (int (length connections))
                                     @ concat (map write_int connections)) layers)"

text \<open>
  The result is \<open>Null\<close> for the return value 0 and \<open>Ptr (buffer, size)\<close> for the return
  value 1 with \<^verbatim>\<open>*out_buffer\<close> and \<^verbatim>\<open>*out_size\<close>; the two out-pointers are taken to be
  valid. \<^verbatim>\<open>total_size\<close> is an \<^verbatim>\<open>int\<close>: a negative value makes \<^verbatim>\<open>malloc\<close> refuse the
  request (the allocator refuses a size above \<^verbatim>\<open>PTRDIFF_MAX\<close> and is otherwise taken
  to succeed), and when it differs from the number of bytes the second loop writes (on
  overflow, or for a node with \<^verbatim>\<open>maximum_layer < -1\<close>) the writes do not fit the
  allocation.
\<close>

definition serialize_hnsw_graph ::
  "'a HNSWTopology_scheme option \<Rightarrow> (byte list \<times> int) ptr option" where
  "serialize_hnsw_graph graph_pointer =
     (case graph_pointer of
        None \<Rightarrow> Some Null
      | Some graph \<Rightarrow>
          if int (length (nodes graph)) < node_count graph then None
          else
            (case those (map serialized_layers (take (nat (node_count graph)) (nodes graph))) of
               None \<Rightarrow> None
             | Some layers \<Rightarrow>
                 (let written_nodes = zip (take (nat (node_count graph)) (nodes graph)) layers;
                      total_size = wrap32 (4 + sum_list (map (\<lambda>(node, layers). node_size node layers)
                                                          written_nodes));
                      buffer = write_int (node_count graph)
                                 @ concat (map (\<lambda>(node, layers). node_record node layers)
                                             written_nodes)
                  in if total_size < 0 then Some Null
                     else if int (length buffer) \<noteq> total_size then None
                     else Some (Ptr (buffer, total_size)))))"

subsection \<open>\<^verbatim>\<open>free_hnsw_graph\<close> on a graph under construction (lines 822--837)\<close>

text \<open>
  While \<^verbatim>\<open>deserialize_hnsw_graph\<close> runs, a node of the \<^verbatim>\<open>calloc\<close>ed array is in
  one of several states; what \<^verbatim>\<open>free_hnsw_graph\<close> does with it depends on
  \<^verbatim>\<open>maximum_layer\<close> and on the pointer \<^verbatim>\<open>layer_connections\<close>: null (\<open>None\<close>), or an
  array whose entries are still indeterminate (as \<^verbatim>\<open>malloc\<close> left them), null, or
  allocated and filled.
\<close>

datatype connection_slot = Indeterminate | Null_pointer | Allocated "int list"

record partial_node =
  p_maximum_layer :: int
  p_connection_counts :: "int list"
  p_layer_connections :: "connection_slot list option"

text \<open>A node as \<^verbatim>\<open>calloc\<close> leaves it: every field zero, every pointer null.\<close>

definition zeroed_node :: partial_node where
  "zeroed_node = \<lparr>p_maximum_layer = 0, p_connection_counts = [], p_layer_connections = None\<rparr>"

text \<open>
  The inner loop \<^verbatim>\<open>free(node->layer_connections[layer])\<close> for \<^verbatim>\<open>layer <= maximum_layer\<close>
  is defined when each pointer it reads exists and is null or allocated.
\<close>

definition free_node_defined :: "partial_node \<Rightarrow> bool" where
  "free_node_defined node =
     (case p_layer_connections node of
        None \<Rightarrow> p_maximum_layer node < 0
      | Some slots \<Rightarrow>
          list_all (\<lambda>layer. layer < length slots \<and> slots ! layer \<noteq> Indeterminate)
            [0 ..< nat (p_maximum_layer node + 1)])"

definition free_hnsw_graph :: "partial_node list \<Rightarrow> unit option" where
  "free_hnsw_graph graph_nodes = (if list_all free_node_defined graph_nodes then Some () else None)"

text \<open>The error exit \<^verbatim>\<open>free_hnsw_graph(graph); return NULL;\<close>.\<close>

definition free_and_fail :: "partial_node list \<Rightarrow> 'a ptr option" where
  "free_and_fail graph_nodes =
     (case free_hnsw_graph graph_nodes of None \<Rightarrow> None | Some _ \<Rightarrow> Some Null)"

subsection \<open>\<^verbatim>\<open>deserialize_hnsw_graph\<close> (lines 715--819)\<close>

text \<open>The read pointer, as an offset into the buffer, and the variable \<^verbatim>\<open>size\<close>.\<close>

record reader =
  position :: nat
  remaining :: int

definition advance :: "reader \<Rightarrow> reader" where
  "advance r = \<lparr>position = position r + 4, remaining = remaining r - 4\<rparr>"

text \<open>The loop that copies \<^verbatim>\<open>conn_count\<close> neighbour ids (lines 810--813).\<close>

fun read_ints :: "byte list \<Rightarrow> nat \<Rightarrow> nat \<Rightarrow> int list option" where
  "read_ints buffer offset 0 = Some []"
| "read_ints buffer offset (Suc n) =
     (case read_int buffer offset of
        None \<Rightarrow> None
      | Some x \<Rightarrow> map_option (\<lambda>xs. x # xs) (read_ints buffer (offset + 4) n))"

text \<open>The loop that reads \<^verbatim>\<open>connection_counts\<close> (lines 773--782).\<close>

function read_counts ::
  "byte list \<Rightarrow> partial_node list \<Rightarrow> int \<Rightarrow> int \<Rightarrow> reader \<Rightarrow> int list
    \<Rightarrow> (int list \<times> reader) ptr option" where
  "read_counts buffer graph_nodes max_layer_count layer r counts =
     (if layer < max_layer_count then
        (if remaining r < 4 then free_and_fail graph_nodes
         else
           (case read_int buffer (position r) of
              None \<Rightarrow> None
            | Some c \<Rightarrow>
                read_counts buffer graph_nodes max_layer_count (layer + 1) (advance r)
                  (counts @ [c])))
      else Some (Ptr (counts, r)))"
  by pat_completeness auto
termination
  by (relation "measure (\<lambda>(buffer, graph_nodes, max_layer_count, layer, r, counts).
                  nat (max_layer_count - layer))") auto

declare read_counts.simps [simp del]

text \<open>Storing the pointer \<^verbatim>\<open>node->layer_connections[layer]\<close> of node \<open>i\<close>.\<close>

definition set_slot :: "partial_node list \<Rightarrow> nat \<Rightarrow> nat \<Rightarrow> connection_slot \<Rightarrow> partial_node list" where
  "set_slot graph_nodes i layer slot =
     graph_nodes[i := (graph_nodes ! i)
       \<lparr>p_layer_connections :=
          map_option (\<lambda>slots. slots[layer := slot]) (p_layer_connections (graph_nodes ! i))\<rparr>]"

text \<open>
  The loop that reads the connections of each layer (lines 785--815). The bound check
  \<^verbatim>\<open>size < conn_count * (int)sizeof(int)\<close> multiplies in \<^verbatim>\<open>int\<close>; a negative
  \<^verbatim>\<open>conn_count\<close> makes \<^verbatim>\<open>malloc\<close> refuse the request; \<^verbatim>\<open>size -= conn_count * sizeof(int)\<close>
  is cut to 32 bits.
\<close>

function read_layers ::
  "byte list \<Rightarrow> partial_node list \<Rightarrow> nat \<Rightarrow> int list \<Rightarrow> int \<Rightarrow> int \<Rightarrow> reader
    \<Rightarrow> (partial_node list \<times> reader) ptr option" where
  "read_layers buffer graph_nodes i counts max_layer_count layer r =
     (if layer < max_layer_count then
        (if remaining r < 4 then free_and_fail graph_nodes
         else
           (case read_int buffer (position r) of
              None \<Rightarrow> None
            | Some conn_count \<Rightarrow>
                if Some conn_count \<noteq> element_at counts layer then free_and_fail graph_nodes
                else if remaining (advance r) < wrap32 (conn_count * 4)
                then free_and_fail graph_nodes
                else if conn_count < 0
                then free_and_fail (set_slot graph_nodes i (nat layer) Null_pointer)
                else
                  (case read_ints buffer (position (advance r)) (nat conn_count) of
                     None \<Rightarrow> None
                   | Some ids \<Rightarrow>
                       read_layers buffer (set_slot graph_nodes i (nat layer) (Allocated ids))
                         i counts max_layer_count (layer + 1)
                         \<lparr>position = position (advance r) + 4 * nat conn_count,
                          remaining = wrap32 (remaining (advance r) - conn_count * 4)\<rparr>)))
      else Some (Ptr (graph_nodes, r)))"
  by pat_completeness auto
termination
  by (relation "measure (\<lambda>(buffer, graph_nodes, i, counts, max_layer_count, layer, r).
                  nat (max_layer_count - layer))") auto

declare read_layers.simps [simp del]

text \<open>
  The loop over the nodes (lines 744--816). \<^verbatim>\<open>max_layer_count\<close> is
  \<^verbatim>\<open>maximum_layer + 1\<close> in \<^verbatim>\<open>int\<close>; when it is negative the three allocations are
  refused and the node's pointers are null.
\<close>

function read_nodes ::
  "byte list \<Rightarrow> partial_node list \<Rightarrow> int \<Rightarrow> int \<Rightarrow> reader \<Rightarrow> partial_node list ptr option" where
  "read_nodes buffer graph_nodes node_count_read i r =
     (if i < node_count_read then
        (if remaining r < 4 then free_and_fail graph_nodes
         else
           (case read_int buffer (position r) of
              None \<Rightarrow> None
            | Some top_layer \<Rightarrow>
                if top_layer < 0
                then free_and_fail (graph_nodes[nat i := (graph_nodes ! nat i)\<lparr>p_maximum_layer := top_layer\<rparr>])
                else if wrap32 (top_layer + 1) < 0
                then free_and_fail (graph_nodes[nat i := (graph_nodes ! nat i)\<lparr>p_maximum_layer := top_layer\<rparr>])
                else
                  (case read_counts buffer
                          (graph_nodes[nat i := \<lparr>p_maximum_layer = top_layer, p_connection_counts = [],
                              p_layer_connections =
                                Some (replicate (nat (wrap32 (top_layer + 1))) Indeterminate)\<rparr>])
                          (wrap32 (top_layer + 1)) 0 (advance r) [] of
                     None \<Rightarrow> None
                   | Some Null \<Rightarrow> Some Null
                   | Some (Ptr (counts, r')) \<Rightarrow>
                       (case read_layers buffer
                               (graph_nodes[nat i := \<lparr>p_maximum_layer = top_layer,
                                   p_connection_counts = counts,
                                   p_layer_connections =
                                     Some (replicate (nat (wrap32 (top_layer + 1))) Indeterminate)\<rparr>])
                               (nat i) counts (wrap32 (top_layer + 1)) 0 r' of
                          None \<Rightarrow> None
                        | Some Null \<Rightarrow> Some Null
                        | Some (Ptr (graph_nodes', r'')) \<Rightarrow>
                            read_nodes buffer graph_nodes' node_count_read (i + 1) r''))))
      else Some (Ptr graph_nodes))"
  by pat_completeness auto
termination
  by (relation "measure (\<lambda>(buffer, graph_nodes, node_count_read, i, r).
                  nat (node_count_read - i))") auto

declare read_nodes.simps [simp del]

text \<open>
  A node of the finished graph: \<^verbatim>\<open>vector_id\<close> is still the 0 of \<^verbatim>\<open>calloc\<close>, and
  \<^verbatim>\<open>allocated_connection_sizes\<close> are the counts. A node with a pointer that is not
  allocated is not a node of a finished graph.
\<close>

definition slot_connections :: "connection_slot \<Rightarrow> int list option" where
  "slot_connections slot = (case slot of Allocated ids \<Rightarrow> Some ids | _ \<Rightarrow> None)"

definition finished_node :: "partial_node \<Rightarrow> HNSWNode option" where
  "finished_node node =
     (case p_layer_connections node of
        None \<Rightarrow> None
      | Some slots \<Rightarrow>
          map_option
            (\<lambda>connections. \<lparr>vector_id = 0, maximum_layer = p_maximum_layer node,
                             layer_connections = connections,
                             allocated_connection_sizes = p_connection_counts node\<rparr>)
            (those (map slot_connections slots)))"

text \<open>
  \<^verbatim>\<open>calloc(node_count, sizeof(HNSWNode))\<close> is refused for a negative \<^verbatim>\<open>node_count\<close>
  (the graph is freed and \<^verbatim>\<open>NULL\<close> returned, lines 738--741) and is taken to succeed
  otherwise, also for 0. The fields of the graph other than \<^verbatim>\<open>nodes\<close> and
  \<^verbatim>\<open>node_count\<close> are never assigned.
\<close>

definition deserialize_hnsw_graph :: "byte list option \<Rightarrow> int \<Rightarrow> HNSWTopology ptr option" where
  "deserialize_hnsw_graph buffer_pointer size_given =
     (case buffer_pointer of
        None \<Rightarrow> Some Null
      | Some buffer \<Rightarrow>
          if size_given \<le> 0 then Some Null
          else if size_given < 4 then Some Null
          else
            (case read_int buffer 0 of
               None \<Rightarrow> None
             | Some node_count_read \<Rightarrow>
                 if node_count_read < 0 then Some Null
                 else
                   (case read_nodes buffer (replicate (nat node_count_read) zeroed_node)
                           node_count_read 0 \<lparr>position = 4, remaining = size_given - 4\<rparr> of
                      None \<Rightarrow> None
                    | Some Null \<Rightarrow> Some Null
                    | Some (Ptr graph_nodes) \<Rightarrow>
                        map_option
                          (\<lambda>finished. Ptr \<lparr>nodes = finished, node_count = node_count_read\<rparr>)
                          (those (map finished_node graph_nodes)))))"

subsection \<open>Graphs in memory\<close>

text \<open>The values an \<^verbatim>\<open>int\<close> can hold.\<close>

definition int32 :: "int \<Rightarrow> bool" where
  "int32 x = (- (2 ^ 31) \<le> x \<and> x < 2 ^ 31)"

text \<open>
  A node as \<^verbatim>\<open>create_hnsw_node\<close> and \<^verbatim>\<open>add_connection_to_node\<close> keep it: a
  non-negative top layer, one connection array per layer \<^verbatim>\<open>0 .. maximum_layer\<close>, and
  neighbour ids that are \<^verbatim>\<open>int\<close> values.
\<close>

definition well_formed_node :: "HNSWNode \<Rightarrow> bool" where
  "well_formed_node node =
     (0 \<le> maximum_layer node
      \<and> int (length (layer_connections node)) = maximum_layer node + 1
      \<and> list_all (list_all int32) (layer_connections node))"

text \<open>Every stored neighbour id is the index of a node.\<close>

definition neighbor_ids_in_range :: "'a HNSWTopology_scheme \<Rightarrow> bool" where
  "neighbor_ids_in_range graph =
     list_all (\<lambda>node. list_all (list_all (\<lambda>neighbor_id. 0 \<le> neighbor_id
                                                   \<and> neighbor_id < node_count graph))
                         (layer_connections node))
       (nodes graph)"

section \<open>HNSW graph construction\<close>

text \<open>\<^verbatim>\<open>create_hnsw_node\<close> (lines 153--171): one empty connection array per layer.\<close>

definition create_hnsw_node :: "int \<Rightarrow> int \<Rightarrow> HNSWNode" where
  "create_hnsw_node node_vector_id node_layer =
     \<lparr>vector_id = node_vector_id, maximum_layer = node_layer,
      layer_connections = replicate (nat (node_layer + 1)) [],
      allocated_connection_sizes =
        map (\<lambda>layer. if layer = 0 then 32 else 16) [0 ..< nat (node_layer + 1)]\<rparr>"

text \<open>
  \<^verbatim>\<open>add_connection_to_node\<close> (lines 173--194): nothing happens above the node's top
  layer or when the id is already stored; otherwise the id is appended, after the
  allocation is doubled when it is full.
\<close>

definition add_connection_to_node :: "HNSWNode \<Rightarrow> int \<Rightarrow> int \<Rightarrow> HNSWNode option" where
  "add_connection_to_node node layer connected_node_id =
     (if layer > maximum_layer node then Some node
      else do {
        connections \<leftarrow> element_at (layer_connections node) layer;
        allocated \<leftarrow> element_at (allocated_connection_sizes node) layer;
        if connected_node_id \<in> set connections then Some node
        else Some (node
          \<lparr>layer_connections :=
             (layer_connections node)[nat layer := connections @ [connected_node_id]],
           allocated_connection_sizes :=
             (if int (length connections) \<ge> allocated
              then (allocated_connection_sizes node)[nat layer := allocated * 2]
              else allocated_connection_sizes node)\<rparr>)
      })"

text \<open>
  The first loop of \<^verbatim>\<open>build_hnsw_graph\<close> (lines 225--233). The layers that the calls of
  \<^verbatim>\<open>determine_random_layer\<close> return are a parameter: the function counts how often a
  pseudo-random draw stays below the level factor, so each is a natural number.
\<close>

fun initialize_nodes :: "nat list \<Rightarrow> int \<Rightarrow> HNSWGraph \<Rightarrow> HNSWGraph" where
  "initialize_nodes [] vector_index graph = graph"
| "initialize_nodes (node_layer # sampled_layers) vector_index graph =
     initialize_nodes sampled_layers (vector_index + 1)
       (graph\<lparr>nodes := nodes graph @ [create_hnsw_node vector_index (int node_layer)],
              maximum_layer_in_graph :=
                (if int node_layer > maximum_layer_in_graph graph then int node_layer
                 else maximum_layer_in_graph graph),
              entry_point_node_id :=
                (if int node_layer > maximum_layer_in_graph graph then vector_index
                 else entry_point_node_id graph)\<rparr>)"

text \<open>The scan of one layer in the greedy descent (lines 257--270).\<close>

fun greedy_scan :: "Vector list \<Rightarrow> Vector \<Rightarrow> int list \<Rightarrow> real \<times> int \<Rightarrow> (real \<times> int) option" where
  "greedy_scan stored current_vector [] best = Some best"
| "greedy_scan stored current_vector (neighbor_id # rest) (best_distance, current_search_node) =
     do {
       neighbor_vector \<leftarrow> element_at stored neighbor_id;
       greedy_scan stored current_vector rest
         (if calculate_euclidean_distance current_vector neighbor_vector < best_distance
          then (calculate_euclidean_distance current_vector neighbor_vector, neighbor_id)
          else (best_distance, current_search_node))
     }"

text \<open>The greedy descent from the top layer to the layer above the node's (lines 247--272).\<close>

function zoom_in ::
  "HNSWGraph \<Rightarrow> Vector list \<Rightarrow> Vector \<Rightarrow> int \<Rightarrow> int \<Rightarrow> int \<Rightarrow> int option" where
  "zoom_in graph stored current_vector node_layer descent_layer current_search_node =
     (if descent_layer > node_layer then
        (case element_at stored current_search_node of
           None \<Rightarrow> None
         | Some search_vector \<Rightarrow>
             (case neighbors_to_explore graph current_search_node descent_layer of
                None \<Rightarrow> None
              | Some neighbor_ids \<Rightarrow>
                  (case greedy_scan stored current_vector neighbor_ids
                          (calculate_euclidean_distance current_vector search_vector,
                           current_search_node) of
                     None \<Rightarrow> None
                   | Some (best_distance, closest) \<Rightarrow>
                       zoom_in graph stored current_vector node_layer (descent_layer - 1) closest)))
      else Some current_search_node)"
  by pat_completeness auto
termination
  by (relation "measure (\<lambda>(graph, stored, current_vector, node_layer, descent_layer, current).
                  nat (descent_layer - node_layer))") auto

declare zoom_in.simps [simp del]

text \<open>The loop over the neighbours of a popped candidate (lines 293--309).\<close>

fun explore_for_insertion ::
  "Vector list \<Rightarrow> Vector \<Rightarrow> int \<Rightarrow> int list \<Rightarrow> PriorityQueue \<times> PriorityQueue
    \<Rightarrow> (PriorityQueue \<times> PriorityQueue) option" where
  "explore_for_insertion stored current_vector width [] queues = Some queues"
| "explore_for_insertion stored current_vector width (neighbor_id # rest)
       (layer_candidates, visited_nodes) =
     do {
       neighbor_vector \<leftarrow> element_at stored neighbor_id;
       improves \<leftarrow> improves_candidates visited_nodes width
                     (calculate_euclidean_distance current_vector neighbor_vector);
       if improves then do {
         layer_candidates' \<leftarrow> insert_candidate layer_candidates neighbor_id
                                (calculate_euclidean_distance current_vector neighbor_vector);
         visited_nodes' \<leftarrow> insert_candidate visited_nodes neighbor_id
                             (calculate_euclidean_distance current_vector neighbor_vector);
         explore_for_insertion stored current_vector width rest
           (layer_candidates', visited_nodes')
       }
       else explore_for_insertion stored current_vector width rest
              (layer_candidates, visited_nodes)
     }"

text \<open>
  The beam search of the build (lines 287--311). It has no break and no set of visited
  nodes: it runs until \<^verbatim>\<open>layer_candidates\<close> is empty. Whether it terminates on every
  graph is not settled here; \<open>None\<close> stands for a run that does not return as well.
\<close>

partial_function (option) beam_loop ::
  "HNSWGraph \<Rightarrow> Vector list \<Rightarrow> Vector \<Rightarrow> int \<Rightarrow> int \<Rightarrow> PriorityQueue \<times> PriorityQueue
    \<Rightarrow> (PriorityQueue \<times> PriorityQueue) option" where
  "beam_loop graph stored current_vector connection_layer width queues =
     (if queue_size (fst queues) > 0 then
        do {
          extracted \<leftarrow> extract_top_candidate (fst queues);
          neighbor_ids \<leftarrow> neighbors_to_explore graph (node_id (fst extracted)) connection_layer;
          queues' \<leftarrow> explore_for_insertion stored current_vector width neighbor_ids
                       (snd extracted, snd queues);
          beam_loop graph stored current_vector connection_layer width queues'
        }
      else Some queues)"

text \<open>
  Copying the queue into \<^verbatim>\<open>candidates_array\<close> (lines 321--325), at most \<^verbatim>\<open>max_conn\<close>
  entries.
\<close>

function drain_candidates ::
  "PriorityQueue \<Rightarrow> int \<Rightarrow> SearchCandidate list \<Rightarrow> (PriorityQueue \<times> SearchCandidate list) option" where
  "drain_candidates layer_candidates max_conn candidates_array =
     (if queue_size layer_candidates > 0 \<and> int (length candidates_array) < max_conn then
        (case extract_top_candidate layer_candidates of
           None \<Rightarrow> None
         | Some (sc, layer_candidates') \<Rightarrow>
             drain_candidates layer_candidates' max_conn (candidates_array @ [sc]))
      else Some (layer_candidates, candidates_array))"
  by pat_completeness auto
termination
proof (relation "measure (\<lambda>(layer_candidates, max_conn, candidates_array).
                    length (candidates layer_candidates))")
  show "wf (measure (\<lambda>(layer_candidates, max_conn, candidates_array).
                    length (candidates layer_candidates)))"
    by simp
next
  fix layer_candidates :: PriorityQueue and max_conn :: int
    and candidates_array :: "SearchCandidate list" and extracted sc layer_candidates'
  assume "extract_top_candidate layer_candidates = Some extracted"
    and "(sc, layer_candidates') = extracted"
  then have "Suc (length (candidates layer_candidates')) = length (candidates layer_candidates)"
    by (auto dest: length_extract_top_candidate)
  then show "((layer_candidates', max_conn, candidates_array @ [sc]),
              (layer_candidates, max_conn, candidates_array))
             \<in> measure (\<lambda>(layer_candidates, max_conn, candidates_array).
                    length (candidates layer_candidates))"
    by simp
qed

declare drain_candidates.simps [simp del]

text \<open>Selecting up to \<^verbatim>\<open>max_conn\<close> distinct ids (lines 328--339).\<close>

fun select_connections :: "SearchCandidate list \<Rightarrow> int \<Rightarrow> int list \<Rightarrow> int list" where
  "select_connections [] max_conn selected_connections = selected_connections"
| "select_connections (candidate # rest) max_conn selected_connections =
     (if int (length selected_connections) < max_conn
      then select_connections rest max_conn
             (if node_id candidate \<in> set selected_connections then selected_connections
              else selected_connections @ [node_id candidate])
      else selected_connections)"

text \<open>Making the connections bidirectional (lines 341--345).\<close>

fun connect_selected :: "HNSWGraph \<Rightarrow> int \<Rightarrow> int \<Rightarrow> int list \<Rightarrow> HNSWGraph option" where
  "connect_selected graph current_node_id connection_layer [] = Some graph"
| "connect_selected graph current_node_id connection_layer (selected # rest) =
     do {
       current_node \<leftarrow> element_at (nodes graph) current_node_id;
       current_node' \<leftarrow> add_connection_to_node current_node connection_layer selected;
       selected_node \<leftarrow> element_at ((nodes graph)[nat current_node_id := current_node']) selected;
       selected_node' \<leftarrow> add_connection_to_node selected_node connection_layer current_node_id;
       connect_selected
         (graph\<lparr>nodes := (nodes graph)[nat current_node_id := current_node',
                                        nat selected := selected_node']\<rparr>)
         current_node_id connection_layer rest
     }"

text \<open>
  The loop over the layers of the new node, from its top layer down to 0
  (lines 275--351). Every layer starts from the same \<^verbatim>\<open>current_search_node\<close>.
\<close>

function connect_layers ::
  "Vector list \<Rightarrow> int \<Rightarrow> Vector \<Rightarrow> int \<Rightarrow> int \<Rightarrow> int \<Rightarrow> HNSWGraph \<Rightarrow> HNSWGraph option" where
  "connect_layers stored current_node_id current_vector width current_search_node
       connection_layer graph =
     (if connection_layer \<ge> 0 then
        do {
          search_vector \<leftarrow> element_at stored current_search_node;
          layer_candidates \<leftarrow>
            insert_candidate (create_priority_queue width False) current_search_node
              (calculate_euclidean_distance current_vector search_vector);
          visited_nodes \<leftarrow>
            insert_candidate (create_priority_queue (width * 2) True) current_search_node
              (calculate_euclidean_distance current_vector search_vector);
          searched \<leftarrow> beam_loop graph stored current_vector connection_layer width
                        (layer_candidates, visited_nodes);
          drained \<leftarrow> drain_candidates (fst searched)
                       (if connection_layer = 0 then max_connections_layer_zero graph
                        else max_connections_per_node graph) [];
          graph' \<leftarrow> connect_selected graph current_node_id connection_layer
                      (select_connections (snd drained)
                         (if connection_layer = 0 then max_connections_layer_zero graph
                          else max_connections_per_node graph) []);
          connect_layers stored current_node_id current_vector width current_search_node
            (connection_layer - 1) graph'
        }
      else Some graph)"
  by pat_completeness auto
termination
  by (relation "measure (\<lambda>(stored, current_node_id, current_vector, width,
                           current_search_node, connection_layer, graph).
                  nat (connection_layer + 1))") auto

declare connect_layers.simps [simp del]

text \<open>The body of the insertion loop for one node (lines 237--353).\<close>

definition insert_node :: "Vector list \<Rightarrow> int \<Rightarrow> int \<Rightarrow> HNSWGraph \<Rightarrow> HNSWGraph option" where
  "insert_node stored width current_node_id graph =
     do {
       current_node \<leftarrow> element_at (nodes graph) current_node_id;
       current_vector \<leftarrow> element_at stored current_node_id;
       current_search_node \<leftarrow>
         zoom_in graph stored current_vector (maximum_layer current_node)
           (maximum_layer_in_graph graph) (entry_point_node_id graph);
       connect_layers stored current_node_id current_vector width current_search_node
         (maximum_layer current_node) graph
     }"

text \<open>
  The insertion loop (lines 236--354):
  \<^verbatim>\<open>for (current_node_id = 1; current_node_id < vector_count; current_node_id++)\<close>.
  Its closing brace is on line 354; \<^verbatim>\<open>return graph\<close> on line 356 follows the loop.
\<close>

function insert_remaining_nodes ::
  "Vector list \<Rightarrow> int \<Rightarrow> int \<Rightarrow> int \<Rightarrow> HNSWGraph \<Rightarrow> HNSWGraph option" where
  "insert_remaining_nodes stored width vector_count current_node_id graph =
     (if current_node_id < vector_count then
        (case insert_node stored width current_node_id graph of
           None \<Rightarrow> None
         | Some graph' \<Rightarrow>
             insert_remaining_nodes stored width vector_count (current_node_id + 1) graph')
      else Some graph)"
  by pat_completeness auto
termination
  by (relation "measure (\<lambda>(stored, width, vector_count, current_node_id, graph).
                  nat (vector_count - current_node_id))") auto

declare insert_remaining_nodes.simps [simp del]

text \<open>
  \<^verbatim>\<open>build_hnsw_graph\<close> (lines 210--357). \<^verbatim>\<open>vector_count\<close> is the length of
  \<open>stored\<close>; \<open>sampled_layers\<close> holds the results of the \<^verbatim>\<open>vector_count\<close> calls of
  \<^verbatim>\<open>determine_random_layer\<close>, in order.
\<close>

definition initial_graph ::
  "Vector list \<Rightarrow> nat list \<Rightarrow> int \<Rightarrow> int \<Rightarrow> real \<Rightarrow> int \<Rightarrow> HNSWGraph" where
  "initial_graph stored sampled_layers max_connections max_connections_zero level_factor width =
     initialize_nodes (take (length stored) sampled_layers) 0
       \<lparr>nodes = [], node_count = int (length stored), original_vectors = stored,
        entry_point_node_id = 0, maximum_layer_in_graph = 0,
        max_connections_per_node = max_connections,
        max_connections_layer_zero = max_connections_zero,
        level_generation_factor = level_factor, construction_search_width = width\<rparr>"

definition build_hnsw_graph ::
  "Vector list \<Rightarrow> nat list \<Rightarrow> int \<Rightarrow> int \<Rightarrow> real \<Rightarrow> int \<Rightarrow> HNSWGraph option" where
  "build_hnsw_graph stored sampled_layers max_connections max_connections_zero level_factor width =
     insert_remaining_nodes stored width (int (length stored)) 1
       (initial_graph stored sampled_layers max_connections max_connections_zero level_factor width)"


text \<open>
  Layer 0 as an undirected graph over the node ids, and weak connectivity: every node
  reaches every other along layer-0 connections, whatever their direction.
\<close>

definition layer_zero_links :: "HNSWGraph \<Rightarrow> (nat \<times> nat) set" where
  "layer_zero_links graph =
     {(a, b). a < length (nodes graph) \<and> b < length (nodes graph)
        \<and> (int b \<in> set (layer_connections (nodes graph ! a) ! 0)
           \<or> int a \<in> set (layer_connections (nodes graph ! b) ! 0))}"

definition weakly_connected_at_layer_zero :: "HNSWGraph \<Rightarrow> bool" where
  "weakly_connected_at_layer_zero graph =
     list_all (\<lambda>a. list_all (\<lambda>b. (a, b) \<in> (layer_zero_links graph)\<^sup>*)
                      [0 ..< length (nodes graph)])
       [0 ..< length (nodes graph)]"

section \<open>Brute-force cosine search\<close>

text \<open>
  The inner loop of \<^verbatim>\<open>brute_force_knn_search\<close> (lines 553--559) over the components of
  one stored vector. \<^verbatim>\<open>query->data[j]\<close> is read for every \<open>j\<close> below the stored
  vector's length, whatever the query's length is.
\<close>

fun cosine_sums :: "real list \<Rightarrow> real list \<Rightarrow> real \<times> real \<times> real \<Rightarrow> (real \<times> real \<times> real) option" where
  "cosine_sums [] query_data totals = Some totals"
| "cosine_sums (a # stored_data) [] totals = None"
| "cosine_sums (a # stored_data) (b # query_data) (dot_product, norm_a, norm_b) =
     cosine_sums stored_data query_data
       (dot_product + a * b, norm_a + a * a, norm_b + b * b)"

text \<open>The loop over the stored vectors (lines 549--572), collecting the matches.\<close>

function cosine_loop ::
  "Vector list \<Rightarrow> int \<Rightarrow> Vector \<Rightarrow> real \<Rightarrow> int \<Rightarrow> int list \<times> real list
    \<Rightarrow> (int list \<times> real list) option" where
  "cosine_loop stored vector_count query similarity_threshold i (neighbors, similarities) =
     (if i < vector_count then
        (case element_at stored i of
           None \<Rightarrow> None
         | Some stored_vector \<Rightarrow>
             (case cosine_sums stored_vector query (0, 0, 0) of
                None \<Rightarrow> None
              | Some (dot_product, norm_a, norm_b) \<Rightarrow>
                  if norm_a = 0 \<or> norm_b = 0
                  then cosine_loop stored vector_count query similarity_threshold (i + 1)
                         (neighbors, similarities)
                  else if dot_product / (sqrt norm_a * sqrt norm_b) \<ge> similarity_threshold
                  then cosine_loop stored vector_count query similarity_threshold (i + 1)
                         (neighbors @ [i],
                          similarities @ [dot_product / (sqrt norm_a * sqrt norm_b)])
                  else cosine_loop stored vector_count query similarity_threshold (i + 1)
                         (neighbors, similarities)))
      else Some (neighbors, similarities))"
  by pat_completeness auto
termination
  by (relation "measure (\<lambda>(stored, vector_count, query, similarity_threshold, i, arrays).
                  nat (vector_count - i))") auto

declare cosine_loop.simps [simp del]

text \<open>
  The bubble sort by descending similarity (lines 575--587): \<open>bubble_pass\<close> is the inner
  loop over \<open>j\<close>, \<open>bubble_sort\<close> the outer loop over \<open>i\<close>.
\<close>

function bubble_pass :: "nat \<Rightarrow> nat \<Rightarrow> int list \<times> real list \<Rightarrow> int list \<times> real list" where
  "bubble_pass j bound (neighbors, similarities) =
     (if j < bound
      then bubble_pass (j + 1) bound
             (if similarities ! j < similarities ! (j + 1)
              then (neighbors[j := neighbors ! (j + 1), j + 1 := neighbors ! j],
                    similarities[j := similarities ! (j + 1), j + 1 := similarities ! j])
              else (neighbors, similarities))
      else (neighbors, similarities))"
  by pat_completeness auto
termination
  by (relation "measure (\<lambda>(j, bound, arrays). bound - j)") auto

declare bubble_pass.simps [simp del]

function bubble_sort :: "nat \<Rightarrow> nat \<Rightarrow> int list \<times> real list \<Rightarrow> int list \<times> real list" where
  "bubble_sort i match_count arrays =
     (if i + 1 < match_count
      then bubble_sort (i + 1) match_count (bubble_pass 0 (match_count - 1 - i) arrays)
      else arrays)"
  by pat_completeness auto
termination
  by (relation "measure (\<lambda>(i, match_count, arrays). match_count - i)") auto

declare bubble_sort.simps [simp del]

text \<open>
  \<^verbatim>\<open>brute_force_knn_search\<close> (lines 527--603). \<open>vectors\<close> and \<open>query\<close> are \<open>None\<close> for a
  null pointer, \<open>out_count\<close> says whether the pointer \<^verbatim>\<open>out_count\<close> is non-null. The
  result is the returned pointer and the value stored in \<^verbatim>\<open>*out_count\<close>, if one is
  stored. The returned array holds the first \<^verbatim>\<open>match_count\<close> entries of \<^verbatim>\<open>neighbors\<close>
  (\<^verbatim>\<open>realloc\<close> keeps them, and the original block is returned if it fails).
\<close>

definition brute_force_knn_search ::
  "Vector list option \<Rightarrow> int \<Rightarrow> Vector option \<Rightarrow> int \<Rightarrow> real \<Rightarrow> bool
    \<Rightarrow> (int list ptr \<times> int option) option" where
  "brute_force_knn_search stored vector_count query k similarity_threshold out_count =
     (case (stored, query) of
        (Some stored_vectors, Some query_vector) \<Rightarrow>
          if vector_count \<le> 0 \<or> k \<le> 0 \<or> \<not> out_count
          then Some (Null, if out_count then Some 0 else None)
          else
            (case cosine_loop stored_vectors vector_count query_vector similarity_threshold 0
                    ([], []) of
               None \<Rightarrow> None
             | Some (neighbors, similarities) \<Rightarrow>
                 Some (Ptr (take (nat k)
                              (fst (bubble_sort 0 (length neighbors) (neighbors, similarities)))),
                       Some (if int (length neighbors) > k then k else int (length neighbors))))
      | _ \<Rightarrow> Some (Null, if out_count then Some 0 else None))"

section \<open>Properties of the brute-force search\<close>

lemma insertion_loop_unchanged:
  "\<forall>i. insertion_position \<le> i \<and> i < k \<longrightarrow> \<not> current_distance < distances ! i
   \<Longrightarrow> insertion_loop k insertion_position current_distance vector_index (neighbors, distances)
       = (neighbors, distances)"
proof (induction k insertion_position current_distance vector_index "(neighbors, distances)"
    rule: insertion_loop.induct)
  case (1 k insertion_position current_distance vector_index)
  then show ?case
    by (subst insertion_loop.simps) auto
qed

lemma brute_force_loop_mismatch:
  assumes "index_len index = int (length (vectors index))"
    and "\<forall>v \<in> set (vectors index). len v \<noteq> len query"
    and "\<forall>d \<in> set distances. d = FLT_MAX" and "length distances = k"
    and "0 \<le> vector_index"
  shows "brute_force_loop index (Some query) k vector_index (neighbors, distances)
         = Some (neighbors, distances)"
  using assms
proof (induction index "Some query" k vector_index "(neighbors, distances)"
    rule: brute_force_loop.induct)
  case (1 index k vector_index)
  show ?case
  proof (cases "vector_index < index_len index")
    case False
    then show ?thesis by (subst brute_force_loop.simps) simp
  next
    case True
    with 1 have el: "element_at (vectors index) vector_index = Some (vectors index ! nat vector_index)"
      by (simp add: element_at_def)
    from True 1 have "vectors index ! nat vector_index \<in> set (vectors index)"
      by simp
    with 1 have d: "calculate_euclidean_distance query (vectors index ! nat vector_index) = FLT_MAX"
      by (auto simp: calculate_euclidean_distance_def)
    have "\<forall>i < k. distances ! i = FLT_MAX"
      using 1 by (auto dest: nth_mem)
    then have same: "insertion_loop k 0 FLT_MAX vector_index (neighbors, distances) = (neighbors, distances)"
      by (intro insertion_loop_unchanged) auto
    show ?thesis
      using True el d same 1
      by (subst brute_force_loop.simps) simp
  qed
qed

text \<open>
  Claim C8. Two vectors of unequal length are at distance \<open>FLT_MAX\<close>; and on a brute-force
  index (no HNSW search enabled) whose stored vectors all differ in dimension from the
  query, \<^verbatim>\<open>knn_search\<close> returns \<open>k\<close> ids that are all the sentinel \<open>-1\<close>.
\<close>

theorem dimension_mismatch_sentinel:
  "(len vector_a \<noteq> len vector_b \<longrightarrow> calculate_euclidean_distance vector_a vector_b = FLT_MAX)
   \<and> (use_hnsw_optimization index = 0
        \<longrightarrow> index_len index = int (length (vectors index))
        \<longrightarrow> (\<forall>v \<in> set (vectors index). len v \<noteq> len query)
        \<longrightarrow> 0 \<le> k
        \<longrightarrow> knn_search index (Some query) k = Some (Ptr (replicate (nat k) (- 1))))"
  by (simp add: calculate_euclidean_distance_def knn_search_def brute_force_loop_mismatch)

theorem dimension_mismatch_sentinel_witness:
  "len [1] \<noteq> len [1, 2]
   \<and> calculate_euclidean_distance [1] [1, 2] = FLT_MAX
   \<and> use_hnsw_optimization (create_index [[1, 2], [3, 4]] 2) = 0
   \<and> index_len (create_index [[1, 2], [3, 4]] 2) = int (length (vectors (create_index [[1, 2], [3, 4]] 2)))
   \<and> len [1, 2] \<noteq> len [0] \<and> len [3, 4] \<noteq> len [0]
   \<and> knn_search (create_index [[1, 2], [3, 4]] 2) (Some [0]) 3 = Some (Ptr [- 1, - 1, - 1])"
  using dimension_mismatch_sentinel
    [of "[1]" "[1, 2]" "create_index [[1, 2], [3, 4]] 2" "[0]" 3]
  by (simp add: create_index_def len_def numeral_3_eq_3)





definition insert_at :: "nat \<Rightarrow> 'a \<Rightarrow> 'a list \<Rightarrow> 'a list" where
  "insert_at p x xs = take (length xs) (take p xs @ x # drop p xs)"

lemma length_insert_at [simp]: "length (insert_at p x xs) = length xs"
  by (simp add: insert_at_def)
























lemma nearest_ids_below_max_all:
  "\<forall>i < length (vectors index). stored_distance index query i < FLT_MAX
   \<Longrightarrow> nearest_ids_below_max index query k = nearest_ids index query k"
  by (simp add: nearest_ids_below_max_def ids_below_max_def nearest_ids_def)


lemma distance_one_dimension:
  "calculate_euclidean_distance [a] [b] = \<bar>a - b\<bar>"
  by (simp add: calculate_euclidean_distance_def len_def)




section \<open>Properties of the serializer\<close>

lemma wrap32_id: "int32 x \<Longrightarrow> wrap32 x = x"
  by (simp add: wrap32_def int32_def)

lemma mod_65536: "(y::int) mod 65536 = y mod 256 + 256 * (y div 256 mod 256)"
proof -
  have e: "(256::int) * 256 = 65536" by simp
  have "y mod (256 * 256) = 256 * (y div 256 mod 256) + y mod 256"
    by (rule zmod_zmult2_eq) simp
  then show ?thesis
    unfolding e by (simp only: add.commute)
qed

lemma mod_16777216: "(y::int) mod 16777216 = y mod 256 + 256 * (y div 256 mod 65536)"
proof -
  have e: "(256::int) * 65536 = 16777216" by simp
  have "y mod (256 * 65536) = 256 * (y div 256 mod 65536) + y mod 256"
    by (rule zmod_zmult2_eq) simp
  then show ?thesis
    unfolding e by (simp only: add.commute)
qed

lemma mod_4294967296: "(y::int) mod 4294967296 = y mod 256 + 256 * (y div 256 mod 16777216)"
proof -
  have e: "(256::int) * 16777216 = 4294967296" by simp
  have "y mod (256 * 16777216) = 256 * (y div 256 mod 16777216) + y mod 256"
    by (rule zmod_zmult2_eq) simp
  then show ?thesis
    unfolding e by (simp only: add.commute)
qed

lemma div_65536: "(x::int) div 256 div 256 = x div 65536"
  by (subst zdiv_zmult2_eq [symmetric]) simp_all

lemma div_16777216: "(x::int) div 65536 div 256 = x div 16777216"
  by (subst zdiv_zmult2_eq [symmetric]) simp_all

lemma bytes_mod:
  "(x::int) mod 256 + 256 * (x div 256 mod 256) + 65536 * (x div 65536 mod 256)
     + 16777216 * (x div 16777216 mod 256) = x mod 4294967296"
proof -
  define a b c e where "a = x mod 256" and "b = x div 256 mod 256"
    and "c = x div 65536 mod 256" and "e = x div 16777216 mod 256"
  have "x mod 4294967296 = a + 256 * (b + 256 * (c + 256 * e))"
    unfolding a_def b_def c_def e_def
    by (simp only: mod_4294967296 [of x] mod_16777216 [of "x div 256"]
        mod_65536 [of "x div 65536"] div_65536 div_16777216)
  also have "\<dots> = a + 256 * b + 65536 * c + 16777216 * e"
    by simp
  finally show ?thesis
    by (simp only: a_def b_def c_def e_def)
qed

lemma wrap32_mod: "wrap32 (x mod 4294967296) = wrap32 x"
proof -
  have "(x mod 4294967296 + 2147483648) mod 4294967296 = (x + 2147483648) mod 4294967296"
    by (rule mod_add_left_eq)
  then show ?thesis
    by (simp only: wrap32_def) simp
qed

lemma uint_byte: "uint (word_of_int y :: byte) = y mod 256"
  by (simp add: uint_word_of_int)

lemma int_of_bytes_write_int:
  "int_of_bytes (word_of_int x) (word_of_int (x div 256)) (word_of_int (x div 65536))
     (word_of_int (x div 16777216)) = wrap32 x"
  by (simp only: int_of_bytes_def uint_byte bytes_mod wrap32_mod)

lemma length_write_int [simp]: "length (write_int x) = 4"
  by (simp add: write_int_def)

lemma read_int_write_int:
  "offset = length pre \<Longrightarrow> read_int (pre @ write_int x @ post) offset = Some (wrap32 x)"
  by (simp add: read_int_def write_int_def int_of_bytes_write_int)

lemma length_concat_write_int [simp]:
  "length (concat (map write_int xs)) = 4 * length xs"
  by (induction xs) simp_all

lemma read_ints_written:
  "list_all int32 ids \<Longrightarrow> offset = length pre \<Longrightarrow>
   read_ints (pre @ concat (map write_int ids) @ post) offset (length ids) = Some ids"
proof (induction ids arbitrary: pre offset)
  case Nil
  then show ?case by simp
next
  case (Cons x ids)
  have "read_ints ((pre @ write_int x) @ concat (map write_int ids) @ post) (offset + 4) (length ids)
        = Some ids"
    using Cons.prems by (intro Cons.IH) simp_all
  moreover have "read_int (pre @ write_int x @ concat (map write_int ids) @ post) offset = Some x"
    using Cons.prems by (simp add: read_int_write_int wrap32_id)
  ultimately show ?case
    by simp
qed

lemma read_counts_written:
  assumes "list_all int32 cs" "position r = length pre" "4 * int (length cs) \<le> remaining r"
    and "max_layer_count = layer + int (length cs)"
  shows "read_counts (pre @ concat (map write_int cs) @ post) graph_nodes max_layer_count layer r acc
         = Some (Ptr (acc @ cs, \<lparr>position = position r + 4 * length cs,
                                  remaining = remaining r - 4 * int (length cs)\<rparr>))"
  using assms
proof (induction cs arbitrary: pre layer r acc)
  case Nil
  then show ?case
    by (subst read_counts.simps) simp
next
  case (Cons c cs)
  have read: "read_int (pre @ concat (map write_int (c # cs)) @ post) (position r) = Some c"
    using Cons.prems by (simp add: read_int_write_int wrap32_id)
  have "read_counts ((pre @ write_int c) @ concat (map write_int cs) @ post) graph_nodes
          max_layer_count (layer + 1) (advance r) (acc @ [c])
        = Some (Ptr ((acc @ [c]) @ cs, \<lparr>position = position (advance r) + 4 * length cs,
                       remaining = remaining (advance r) - 4 * int (length cs)\<rparr>))"
    using Cons.prems by (intro Cons.IH) (simp_all add: advance_def)
  then show ?case
    using Cons.prems read
    by (subst read_counts.simps) (simp add: advance_def)
qed


definition layer_bytes :: "int list \<Rightarrow> byte list" where
  "layer_bytes connections = write_int (int (length connections)) @ concat (map write_int connections)"

lemma length_layer_bytes [simp]: "length (layer_bytes l) = 4 + 4 * length l"
  by (simp add: layer_bytes_def)

lemma read_layers_written:
  assumes "list_all (list_all int32) ls"
    and "\<forall>k < length ls. element_at counts (layer + int k) = Some (int (length (ls ! k)))"
    and "position r = length pre"
    and "int (length (concat (map layer_bytes ls))) \<le> remaining r" and "remaining r < 2 ^ 31"
    and "max_layer_count = layer + int (length ls)" and "0 \<le> layer"
    and "i < length graph_nodes" and "p_layer_connections (graph_nodes ! i) = Some slots"
    and "length slots = nat max_layer_count"
  shows "read_layers (pre @ concat (map layer_bytes ls) @ post) graph_nodes i counts
           max_layer_count layer r
         = Some (Ptr (graph_nodes[i := (graph_nodes ! i)
                         \<lparr>p_layer_connections := Some (take (nat layer) slots @ map Allocated ls)\<rparr>],
                      \<lparr>position = position r + length (concat (map layer_bytes ls)),
                       remaining = remaining r - int (length (concat (map layer_bytes ls)))\<rparr>))"
  using assms
proof (induction ls arbitrary: pre layer r graph_nodes slots)
  case Nil
  then have "take (nat layer) slots = slots"
    by simp
  with Nil have "graph_nodes[i := (graph_nodes ! i)\<lparr>p_layer_connections := Some (take (nat layer) slots @ map Allocated [])\<rparr>]
                 = graph_nodes"
    by (simp add: list_update_same_conv)
  with Nil show ?case
    by (subst read_layers.simps) simp
next
  case (Cons l ls)
  let ?buffer = "pre @ concat (map layer_bytes (l # ls)) @ post"
  let ?count = "int (length l)"
  let ?r1 = "advance r"
  let ?r2 = "\<lparr>position = position ?r1 + 4 * nat ?count,
              remaining = wrap32 (remaining ?r1 - ?count * 4)\<rparr>"
  let ?nodes = "set_slot graph_nodes i (nat layer) (Allocated l)"
  from Cons.prems have size: "4 + 4 * ?count \<le> remaining r"
    by simp
  with Cons.prems have count32: "int32 ?count" and prod32: "int32 (?count * 4)"
    and rest32: "int32 (remaining ?r1 - ?count * 4)"
    by (simp_all add: int32_def advance_def)
  have buffer: "?buffer = pre @ write_int ?count @ (concat (map write_int l)
                    @ concat (map layer_bytes ls) @ post)"
    by (simp add: layer_bytes_def)
  have read: "read_int ?buffer (position r) = Some ?count"
    unfolding buffer using Cons.prems count32 by (simp add: read_int_write_int wrap32_id)
  have buffer2: "?buffer = (pre @ write_int ?count) @ concat (map write_int l)
                    @ (concat (map layer_bytes ls) @ post)"
    by (simp add: layer_bytes_def)
  have "read_ints ((pre @ write_int ?count) @ concat (map write_int l)
                    @ (concat (map layer_bytes ls) @ post)) (position ?r1) (length l) = Some l"
    using Cons.prems by (intro read_ints_written) (simp_all add: advance_def)
  then have ids: "read_ints ?buffer (position ?r1) (nat ?count) = Some l"
    unfolding buffer2 by simp
  have count_ok: "element_at counts layer = Some ?count"
    using Cons.prems(2) [rule_format, of 0] by simp
  have layer_lt: "nat layer < length slots"
    using Cons.prems by simp
  have nodes_i: "p_layer_connections (?nodes ! i) = Some (slots[nat layer := Allocated l])"
    using Cons.prems by (simp add: set_slot_def)
  have buffer3: "?buffer = (pre @ layer_bytes l) @ concat (map layer_bytes ls) @ post"
    by simp
  have step: "read_layers ?buffer ?nodes i counts max_layer_count (layer + 1) ?r2
        = Some (Ptr (?nodes[i := (?nodes ! i)
                         \<lparr>p_layer_connections :=
                            Some (take (nat (layer + 1)) (slots[nat layer := Allocated l])
                                  @ map Allocated ls)\<rparr>],
                      \<lparr>position = position ?r2 + length (concat (map layer_bytes ls)),
                       remaining = remaining ?r2 - int (length (concat (map layer_bytes ls)))\<rparr>))"
    unfolding buffer3
  proof (rule Cons.IH)
    show "list_all (list_all int32) ls"
      using Cons.prems by simp
    show "\<forall>k < length ls. element_at counts (layer + 1 + int k) = Some (int (length (ls ! k)))"
    proof (intro allI impI)
      fix k assume "k < length ls"
      with Cons.prems(2) [rule_format, of "Suc k"]
      show "element_at counts (layer + 1 + int k) = Some (int (length (ls ! k)))"
        by (simp add: ac_simps)
    qed
    show "position ?r2 = length (pre @ layer_bytes l)"
      using Cons.prems by (simp add: advance_def)
    show "int (length (concat (map layer_bytes ls))) \<le> remaining ?r2"
      using Cons.prems rest32 by (simp add: wrap32_id) (simp add: advance_def)
    show "remaining ?r2 < 2 ^ 31"
      using rest32 by (simp add: wrap32_id) (simp add: int32_def)
    show "max_layer_count = layer + 1 + int (length ls)"
      using Cons.prems by simp
    show "0 \<le> layer + 1"
      using Cons.prems by simp
    show "i < length ?nodes"
      using Cons.prems by (simp add: set_slot_def)
    show "p_layer_connections (?nodes ! i) = Some (slots[nat layer := Allocated l])"
      by (rule nodes_i)
    show "length (slots[nat layer := Allocated l]) = nat max_layer_count"
      using Cons.prems by simp
  qed
  have take_eq: "take (nat (layer + 1)) (slots[nat layer := Allocated l])
                 = take (nat layer) slots @ [Allocated l]"
    using layer_lt Cons.prems
    by (simp add: nat_add_distrib take_Suc_conv_app_nth)
  have nodes_eq: "?nodes[i := (?nodes ! i)
                         \<lparr>p_layer_connections :=
                            Some (take (nat (layer + 1)) (slots[nat layer := Allocated l])
                                  @ map Allocated ls)\<rparr>]
        = graph_nodes[i := (graph_nodes ! i)
                         \<lparr>p_layer_connections := Some (take (nat layer) slots @ map Allocated (l # ls))\<rparr>]"
    using Cons.prems by (simp add: take_eq set_slot_def)
  have reader_eq: "\<lparr>position = position ?r2 + length (concat (map layer_bytes ls)),
                       remaining = remaining ?r2 - int (length (concat (map layer_bytes ls)))\<rparr>
        = \<lparr>position = position r + length (concat (map layer_bytes (l # ls))),
             remaining = remaining r - int (length (concat (map layer_bytes (l # ls))))\<rparr>"
    using rest32 by (simp add: wrap32_id) (simp add: advance_def)
  have "layer < max_layer_count" "\<not> remaining r < 4"
    "\<not> remaining ?r1 < wrap32 (?count * 4)" "\<not> ?count < 0"
    using Cons.prems size prod32 by (simp_all add: wrap32_id) (simp add: advance_def)
  then show ?case
    using read count_ok ids step
    by (subst read_layers.simps) (simp only: nodes_eq reader_eq if_True if_False option.case
        not_not refl of_nat_0_le_iff not_less [symmetric] simp_thms)
qed

definition node_bytes :: "HNSWNode \<Rightarrow> byte list" where
  "node_bytes node = node_record node (layer_connections node)"

definition partial_of :: "HNSWNode \<Rightarrow> partial_node" where
  "partial_of node =
     \<lparr>p_maximum_layer = maximum_layer node,
      p_connection_counts = map (\<lambda>connections. int (length connections)) (layer_connections node),
      p_layer_connections = Some (map Allocated (layer_connections node))\<rparr>"

lemma node_bytes_eq:
  "node_bytes node
   = write_int (maximum_layer node)
     @ concat (map write_int (map (\<lambda>connections. int (length connections)) (layer_connections node)))
     @ concat (map layer_bytes (layer_connections node))"
  by (simp add: node_bytes_def node_record_def layer_bytes_def [abs_def] comp_def)

lemma length_concat_write_int_comp [simp]:
  "length (concat (map (write_int \<circ> f) xs)) = 4 * length xs"
  by (induction xs) simp_all

lemma length_node_bytes:
  "int (length (node_bytes node))
   = 4 + 4 * int (length (layer_connections node))
     + int (length (concat (map layer_bytes (layer_connections node))))"
  by (simp add: node_bytes_eq)

lemma length_concat_layer_bytes_ge:
  "l \<in> set ls \<Longrightarrow> 4 + 4 * length l \<le> length (concat (map layer_bytes ls))"
  by (induction ls) auto

lemma read_node_written:
  fixes pre post :: "byte list"
  assumes wf: "well_formed_node node"
    and pos: "position r = length pre"
    and enough: "int (length (node_bytes node)) \<le> remaining r" and small: "remaining r < 2 ^ 31"
    and i: "i < length graph_nodes"
  defines "top_layer \<equiv> maximum_layer node"
  defines "buffer \<equiv> pre @ node_bytes node @ post"
  shows "read_int buffer (position r) = Some top_layer \<and> 0 \<le> top_layer
         \<and> wrap32 (top_layer + 1) = top_layer + 1
         \<and> (\<exists>r'. read_counts buffer
                  (graph_nodes[i := \<lparr>p_maximum_layer = top_layer, p_connection_counts = [],
                      p_layer_connections = Some (replicate (nat (top_layer + 1)) Indeterminate)\<rparr>])
                  (top_layer + 1) 0 (advance r) []
                = Some (Ptr (p_connection_counts (partial_of node), r'))
              \<and> read_layers buffer
                  (graph_nodes[i := \<lparr>p_maximum_layer = top_layer,
                      p_connection_counts = p_connection_counts (partial_of node),
                      p_layer_connections = Some (replicate (nat (top_layer + 1)) Indeterminate)\<rparr>])
                  i (p_connection_counts (partial_of node)) (top_layer + 1) 0 r'
                = Some (Ptr (graph_nodes[i := partial_of node],
                     \<lparr>position = position r + length (node_bytes node),
                      remaining = remaining r - int (length (node_bytes node))\<rparr>)))"
proof -
  let ?ls = "layer_connections node"
  let ?counts = "map (\<lambda>connections. int (length connections)) ?ls"
  let ?r1 = "advance r"
  let ?r2 = "\<lparr>position = position ?r1 + 4 * length ?counts,
              remaining = remaining ?r1 - 4 * int (length ?counts)\<rparr>"
  from wf have top: "0 \<le> top_layer" and len: "int (length ?ls) = top_layer + 1"
    and ids: "list_all (list_all int32) ?ls"
    by (simp_all add: well_formed_node_def top_layer_def)
  from enough small have bytes: "4 + 4 * int (length ?ls)
      + int (length (concat (map layer_bytes ?ls))) < 2 ^ 31"
    by (simp add: length_node_bytes)
  with len top have top32: "int32 top_layer" "int32 (top_layer + 1)"
    by (simp_all add: int32_def)
  have counts32: "list_all int32 ?counts"
    unfolding list_all_iff
  proof
    fix c assume "c \<in> set ?counts"
    then obtain l where "l \<in> set ?ls" "c = int (length l)"
      by auto
    with length_concat_layer_bytes_ge [of l ?ls] bytes show "int32 c"
      by (simp add: int32_def)
  qed
  have buffer1: "buffer = pre @ write_int top_layer
                   @ (concat (map write_int ?counts) @ concat (map layer_bytes ?ls) @ post)"
    by (simp add: buffer_def node_bytes_eq top_layer_def)
  have read: "read_int buffer (position r) = Some top_layer"
    unfolding buffer1 using pos top32 by (simp add: read_int_write_int wrap32_id)
  have buffer2: "buffer = (pre @ write_int top_layer) @ concat (map write_int ?counts)
                   @ (concat (map layer_bytes ?ls) @ post)"
    by (simp add: buffer1)
  have counts: "read_counts buffer graph_nodes' (top_layer + 1) 0 ?r1 [] = Some (Ptr ([] @ ?counts, ?r2))"
    for graph_nodes'
    unfolding buffer2
    using counts32 pos enough len
    by (intro read_counts_written) (simp_all add: advance_def length_node_bytes)
  have buffer3: "buffer = (pre @ write_int top_layer @ concat (map write_int ?counts))
                   @ concat (map layer_bytes ?ls) @ post"
    by (simp add: buffer1)
  let ?nodes = "graph_nodes[i := \<lparr>p_maximum_layer = top_layer, p_connection_counts = ?counts,
                      p_layer_connections = Some (replicate (nat (top_layer + 1)) Indeterminate)\<rparr>]"
  have layers: "read_layers buffer ?nodes i ?counts (top_layer + 1) 0 ?r2
      = Some (Ptr (?nodes[i := (?nodes ! i)\<lparr>p_layer_connections :=
                      Some (take (nat 0) (replicate (nat (top_layer + 1)) Indeterminate)
                            @ map Allocated ?ls)\<rparr>],
                   \<lparr>position = position ?r2 + length (concat (map layer_bytes ?ls)),
                    remaining = remaining ?r2 - int (length (concat (map layer_bytes ?ls)))\<rparr>))"
    unfolding buffer3
  proof (rule read_layers_written)
    show "list_all (list_all int32) ?ls"
      by (rule ids)
    show "\<forall>k<length ?ls. element_at ?counts (0 + int k) = Some (int (length (?ls ! k)))"
      by (simp add: element_at_def)
    show "position ?r2 = length (pre @ write_int top_layer @ concat (map write_int ?counts))"
      using pos by (simp add: advance_def)
    show "int (length (concat (map layer_bytes ?ls))) \<le> remaining ?r2"
      using enough by (simp add: advance_def length_node_bytes)
    show "remaining ?r2 < 2 ^ 31"
      using small by (simp add: advance_def)
    show "top_layer + 1 = 0 + int (length ?ls)"
      using len by simp
    show "(0::int) \<le> 0"
      by simp
    show "i < length ?nodes"
      using i by simp
    show "p_layer_connections (?nodes ! i) = Some (replicate (nat (top_layer + 1)) Indeterminate)"
      using i by simp
    show "length (replicate (nat (top_layer + 1)) Indeterminate) = nat (top_layer + 1)"
      by simp
  qed
  have nodes_eq: "?nodes[i := (?nodes ! i)\<lparr>p_layer_connections :=
                      Some (take (nat 0) (replicate (nat (top_layer + 1)) Indeterminate)
                            @ map Allocated ?ls)\<rparr>]
                  = graph_nodes[i := partial_of node]"
    using i by (simp add: partial_of_def top_layer_def)
  have reader_eq: "\<lparr>position = position ?r2 + length (concat (map layer_bytes ?ls)),
                    remaining = remaining ?r2 - int (length (concat (map layer_bytes ?ls)))\<rparr>
                 = \<lparr>position = position r + length (node_bytes node),
                      remaining = remaining r - int (length (node_bytes node))\<rparr>"
    by (simp add: advance_def node_bytes_eq)
  have counts_eq: "p_connection_counts (partial_of node) = ?counts"
    by (simp add: partial_of_def)
  show ?thesis
    using read top top32 counts layers
    by (simp only: nodes_eq reader_eq counts_eq append_Nil wrap32_id) blast
qed


lemma read_nodes_written:
  assumes "list_all well_formed_node ns"
    and "position r = length pre"
    and "int (length (concat (map node_bytes ns))) \<le> remaining r" and "remaining r < 2 ^ 31"
    and "node_count_read = i + int (length ns)" and "0 \<le> i"
    and "length graph_nodes = nat node_count_read"
  shows "read_nodes (pre @ concat (map node_bytes ns) @ post) graph_nodes node_count_read i r
         = Some (Ptr (take (nat i) graph_nodes @ map partial_of ns))"
  using assms
proof (induction ns arbitrary: pre i r graph_nodes)
  case Nil
  then show ?case
    by (subst read_nodes.simps) simp
next
  case (Cons n ns)
  let ?buffer = "pre @ concat (map node_bytes (n # ns)) @ post"
  let ?top = "maximum_layer n"
  let ?r' = "\<lparr>position = position r + length (node_bytes n),
              remaining = remaining r - int (length (node_bytes n))\<rparr>"
  have buffer: "?buffer = pre @ node_bytes n @ (concat (map node_bytes ns) @ post)"
    by simp
  have i: "nat i < length graph_nodes" "i < node_count_read"
    using Cons.prems by simp_all
  have enough: "int (length (node_bytes n)) \<le> remaining r" "4 \<le> remaining r"
    using Cons.prems by (simp_all add: length_node_bytes)
  from read_node_written [where node = n and r = r and pre = pre and i = "nat i"
      and graph_nodes = graph_nodes and post = "concat (map node_bytes ns) @ post",
      folded buffer]
  obtain r1 where
    read: "read_int ?buffer (position r) = Some ?top" and top: "0 \<le> ?top"
    and wrap: "wrap32 (?top + 1) = ?top + 1"
    and counts: "read_counts ?buffer
                  (graph_nodes[nat i := \<lparr>p_maximum_layer = ?top, p_connection_counts = [],
                      p_layer_connections = Some (replicate (nat (?top + 1)) Indeterminate)\<rparr>])
                  (?top + 1) 0 (advance r) []
                = Some (Ptr (p_connection_counts (partial_of n), r1))"
    and layers: "read_layers ?buffer
                  (graph_nodes[nat i := \<lparr>p_maximum_layer = ?top,
                      p_connection_counts = p_connection_counts (partial_of n),
                      p_layer_connections = Some (replicate (nat (?top + 1)) Indeterminate)\<rparr>])
                  (nat i) (p_connection_counts (partial_of n)) (?top + 1) 0 r1
                = Some (Ptr (graph_nodes[nat i := partial_of n], ?r'))"
    using Cons.prems enough i by auto
  have buffer': "?buffer = (pre @ node_bytes n) @ concat (map node_bytes ns) @ post"
    by simp
  have rest: "read_nodes ?buffer (graph_nodes[nat i := partial_of n]) node_count_read (i + 1) ?r'
              = Some (Ptr (take (nat (i + 1)) (graph_nodes[nat i := partial_of n])
                           @ map partial_of ns))"
    unfolding buffer'
    using Cons.prems by (intro Cons.IH) (simp_all add: length_node_bytes)
  have "take (nat (i + 1)) (graph_nodes[nat i := partial_of n])
        = take (nat i) graph_nodes @ [partial_of n]"
    using i Cons.prems by (simp add: nat_add_distrib take_Suc_conv_app_nth)
  with rest have rest': "read_nodes ?buffer (graph_nodes[nat i := partial_of n]) node_count_read (i + 1) ?r'
              = Some (Ptr (take (nat i) graph_nodes @ map partial_of (n # ns)))"
    by simp
  have "\<not> remaining r < 4" "\<not> ?top < 0" "\<not> ?top + 1 < 0"
    using enough top by simp_all
  then show ?case
    using i(2) read wrap counts layers rest'
    by (subst read_nodes.simps) simp
qed


lemma serialized_layers_well_formed:
  "well_formed_node node \<Longrightarrow> serialized_layers node = Some (layer_connections node)"
  unfolding serialized_layers_def well_formed_node_def by auto

lemma those_map_Some:
  "(\<And>x. x \<in> set xs \<Longrightarrow> f x = Some (g x)) \<Longrightarrow> those (map f xs) = Some (map g xs)"
  by (induction xs) simp_all

lemma finished_node_partial_of:
  "finished_node (partial_of node)
   = Some \<lparr>vector_id = 0, maximum_layer = maximum_layer node,
           layer_connections = layer_connections node,
           allocated_connection_sizes =
             map (\<lambda>connections. int (length connections)) (layer_connections node)\<rparr>"
proof -
  have "those (map slot_connections (map Allocated ls)) = Some ls" for ls
    by (induction ls) (simp_all add: slot_connections_def)
  then show ?thesis
    by (simp add: finished_node_def partial_of_def)
qed

lemma length_concat_node_bytes_ge:
  "4 * length ns \<le> length (concat (map node_bytes ns))"
  by (induction ns) (simp_all add: node_bytes_eq)

lemma wrap32_bounds: "- (2 ^ 31) \<le> wrap32 x \<and> wrap32 x < 2 ^ 31"
  by (simp add: wrap32_def)

text \<open>
  Claim C4. Whenever \<^verbatim>\<open>serialize_hnsw_graph\<close> succeeds on a graph in memory (its node
  array has \<^verbatim>\<open>node_count\<close> entries, each node is well formed),
  \<^verbatim>\<open>deserialize_hnsw_graph\<close> applied to the produced buffer and size returns a non-null
  graph with the same \<^verbatim>\<open>node_count\<close>, the same top layer for every node and, for every
  node and layer, the same neighbour sequence.
\<close>

theorem serialize_deserialize_round_trip:
  assumes serialized: "serialize_hnsw_graph (Some graph) = Some (Ptr (buffer, buffer_size))"
    and count: "node_count graph = int (length (nodes graph))"
    and wf: "list_all well_formed_node (nodes graph)"
  shows "\<exists>restored. deserialize_hnsw_graph (Some buffer) buffer_size = Some (Ptr restored)
           \<and> node_count restored = node_count graph
           \<and> map maximum_layer (nodes restored) = map maximum_layer (nodes graph)
           \<and> map layer_connections (nodes restored) = map layer_connections (nodes graph)"
proof -
  let ?ns = "nodes graph" and ?N = "node_count graph"
  let ?restore = "\<lambda>node. \<lparr>vector_id = 0, maximum_layer = maximum_layer node,
           layer_connections = layer_connections node,
           allocated_connection_sizes =
             map (\<lambda>connections. int (length connections)) (layer_connections node)\<rparr>"
  have layers: "those (map serialized_layers (take (nat ?N) ?ns)) = Some (map layer_connections ?ns)"
    using wf count
    by (simp add: those_map_Some [where g = layer_connections] serialized_layers_well_formed
        list_all_iff)
  have records: "map (\<lambda>(node, layers). node_record node layers) (zip ?ns (map layer_connections ?ns))
                 = map node_bytes ?ns"
    by (simp add: zip_map2 zip_same_conv_map node_bytes_def [abs_def])
  from serialized layers count records
  have buffer: "buffer = write_int ?N @ concat (map node_bytes ?ns)"
    and size: "int (length buffer) = buffer_size"
    and wrapped: "\<exists>total. wrap32 total = buffer_size"
    by (auto simp: serialize_hnsw_graph_def Let_def split: if_splits)
  from wrapped wrap32_bounds have size_bound: "buffer_size < 2 ^ 31"
    by auto
  from size buffer have size_eq: "buffer_size = 4 + int (length (concat (map node_bytes ?ns)))"
    by simp
  with length_concat_node_bytes_ge [of ?ns] size_bound count have N32: "int32 ?N"
    by (simp add: int32_def)
  have read_count: "read_int buffer 0 = Some ?N"
    using read_int_write_int [of 0 "[]" ?N "concat (map node_bytes ?ns)"] N32
    by (simp add: buffer wrap32_id)
  have "read_nodes ((write_int ?N) @ concat (map node_bytes ?ns) @ [])
          (replicate (nat ?N) zeroed_node) ?N 0
          \<lparr>position = 4, remaining = buffer_size - 4\<rparr>
        = Some (Ptr (take (nat 0) (replicate (nat ?N) zeroed_node) @ map partial_of ?ns))"
    using wf count size_eq size_bound
    by (intro read_nodes_written) simp_all
  then have nodes: "read_nodes buffer (replicate (nat ?N) zeroed_node) ?N 0
          \<lparr>position = 4, remaining = buffer_size - 4\<rparr>
        = Some (Ptr (map partial_of ?ns))"
    by (simp add: buffer)
  have finished: "those (map finished_node (map partial_of ?ns)) = Some (map ?restore ?ns)"
    by (simp add: those_map_Some [where g = ?restore] finished_node_partial_of comp_def)
  have "deserialize_hnsw_graph (Some buffer) buffer_size
        = Some (Ptr \<lparr>nodes = map ?restore ?ns, node_count = ?N\<rparr>)"
    using size_eq count read_count nodes finished
    by (simp add: deserialize_hnsw_graph_def)
  then show ?thesis
    by (simp add: comp_def)
qed

theorem serialize_deserialize_round_trip_witness:
  "serialize_hnsw_graph
     (Some \<lparr>nodes = [\<lparr>vector_id = 0, maximum_layer = 1, layer_connections = [[1], [1]],
                       allocated_connection_sizes = [32, 16]\<rparr>,
                     \<lparr>vector_id = 1, maximum_layer = 0, layer_connections = [[0]],
                       allocated_connection_sizes = [32]\<rparr>],
            node_count = 2\<rparr>)
   = Some (Ptr (concat (map write_int [2, 1, 1, 1, 1, 1, 1, 1, 0, 1, 1, 0]), 48))
   \<and> (\<exists>restored.
         deserialize_hnsw_graph (Some (concat (map write_int [2, 1, 1, 1, 1, 1, 1, 1, 0, 1, 1, 0]))) 48
           = Some (Ptr restored)
         \<and> node_count restored = 2
         \<and> map maximum_layer (nodes restored) = [1, 0]
         \<and> map layer_connections (nodes restored) = [[[1], [1]], [[0]]])"
proof -
  let ?graph = "\<lparr>nodes = [\<lparr>vector_id = 0, maximum_layer = 1, layer_connections = [[1], [1]],
                       allocated_connection_sizes = [32, 16]\<rparr>,
                     \<lparr>vector_id = 1, maximum_layer = 0, layer_connections = [[0]],
                       allocated_connection_sizes = [32]\<rparr>],
            node_count = 2\<rparr>"
  have serialized: "serialize_hnsw_graph (Some ?graph)
      = Some (Ptr (concat (map write_int [2, 1, 1, 1, 1, 1, 1, 1, 0, 1, 1, 0]), 48))"
    by (simp add: serialize_hnsw_graph_def serialized_layers_def node_size_def node_record_def
        wrap32_def)
  have "node_count ?graph = int (length (nodes ?graph))"
    and "list_all well_formed_node (nodes ?graph)"
    by (simp_all add: well_formed_node_def int32_def)
  from serialize_deserialize_round_trip [OF serialized this] serialized
  show ?thesis
    by simp
qed

text \<open>
  Claim C10. \<^verbatim>\<open>deserialize_hnsw_graph\<close> does not validate neighbour ids: the buffer
  below is what the serializer writes for a one-node graph whose only neighbour id is 7
  (counts consistent, nothing read past the end, top layer 0), and deserializing it
  returns a non-null graph that holds the id 7, outside \<open>[0, node_count)\<close>.
\<close>

theorem deserialize_keeps_out_of_range_neighbor:
  "serialize_hnsw_graph
     (Some \<lparr>nodes = [\<lparr>vector_id = 0, maximum_layer = 0, layer_connections = [[7]],
                       allocated_connection_sizes = [32]\<rparr>], node_count = 1\<rparr>)
   = Some (Ptr (concat (map write_int [1, 0, 1, 1, 7]), 20))
   \<and> deserialize_hnsw_graph (Some (concat (map write_int [1, 0, 1, 1, 7]))) 20
     = Some (Ptr \<lparr>nodes = [\<lparr>vector_id = 0, maximum_layer = 0, layer_connections = [[7]],
                              allocated_connection_sizes = [1]\<rparr>], node_count = 1\<rparr>)
   \<and> \<not> neighbor_ids_in_range
         \<lparr>nodes = [\<lparr>vector_id = 0, maximum_layer = 0, layer_connections = [[7]],
                              allocated_connection_sizes = [1]\<rparr>], node_count = 1\<rparr>"
  by (simp add: serialize_hnsw_graph_def serialized_layers_def node_size_def node_record_def
      deserialize_hnsw_graph_def read_int_def int_of_bytes_def wrap32_def write_int_def
      read_nodes.simps read_counts.simps read_layers.simps advance_def element_at_def
      set_slot_def zeroed_node_def finished_node_def slot_connections_def
      neighbor_ids_in_range_def)

lemma read_ints_past_end:
  "0 < n \<Longrightarrow> read_int buffer offset = None \<Longrightarrow> read_ints buffer offset n = None"
  by (cases n) simp_all

text \<open>
  Claim C5 fails on the code. A buffer that ends after \<^verbatim>\<open>node_count = 1\<close>, and the
  serializer's output for a valid graph with the repeated count of its only layer changed
  from 1 to 2, both reach \<^verbatim>\<open>free_hnsw_graph\<close> on a half-built graph, which
  dereferences the null \<^verbatim>\<open>layer_connections\<close> of a zeroed node, or frees a pointer that
  was never assigned: the execution is undefined instead of returning \<^verbatim>\<open>NULL\<close>. With a
  count of \<open>2 ^ 30\<close> the bound check \<^verbatim>\<open>size < conn_count * 4\<close> overflows to \<open>0 < 0\<close> and the
  copy loop reads past the end of the buffer.
\<close>

theorem deserialize_corrupt_buffer_undefined:
  "free_hnsw_graph [zeroed_node] = None
   \<and> deserialize_hnsw_graph (Some (write_int 1)) 4 = None
   \<and> deserialize_hnsw_graph (Some (concat (map write_int [1, 0, 1, 2, 7]))) 20 = None
   \<and> deserialize_hnsw_graph (Some (concat (map write_int [1, 0, 2 ^ 30, 2 ^ 30]))) 16 = None"
  by (simp add: deserialize_hnsw_graph_def read_int_def int_of_bytes_def wrap32_def write_int_def
      read_nodes.simps read_counts.simps read_layers.simps advance_def element_at_def
      set_slot_def zeroed_node_def free_and_fail_def free_hnsw_graph_def free_node_defined_def
      read_ints_past_end)

section \<open>Properties of the graph construction\<close>

text \<open>A graph none of whose nodes has a connection, at any layer.\<close>

definition edge_free :: "HNSWGraph \<Rightarrow> bool" where
  "edge_free graph =
     list_all (\<lambda>node. list_all (\<lambda>connections. connections = []) (layer_connections node))
       (nodes graph)"

lemma element_at_SomeD:
  "element_at xs i = Some x \<Longrightarrow> 0 \<le> i \<and> nat i < length xs \<and> x = xs ! nat i"
  by (auto simp: element_at_def split: if_splits)

lemma element_at_in_set: "element_at xs i = Some x \<Longrightarrow> x \<in> set xs"
  by (auto dest: element_at_SomeD)

lemma edge_free_neighbors:
  "edge_free graph \<Longrightarrow> neighbors_to_explore graph current layer = Some neighbor_ids
   \<Longrightarrow> neighbor_ids = []"
  by (auto simp: edge_free_def neighbors_to_explore_def list_all_iff
      split: bind_splits if_splits dest!: element_at_in_set)

lemma zoom_in_edge_free:
  "edge_free graph \<Longrightarrow>
   zoom_in graph stored current_vector node_layer descent_layer current = Some closest
   \<Longrightarrow> closest = current"
proof (induction graph stored current_vector node_layer descent_layer current
    rule: zoom_in.induct)
  case (1 graph stored current_vector node_layer descent_layer current)
  show ?case
  proof (cases "descent_layer > node_layer")
    case False
    with "1.prems" show ?thesis
      by (simp add: zoom_in.simps)
  next
    case True
    from "1.prems"(2) True obtain search_vector neighbor_ids best where
      v: "element_at stored current = Some search_vector"
      and n: "neighbors_to_explore graph current descent_layer = Some neighbor_ids"
      and s: "greedy_scan stored current_vector neighbor_ids
               (calculate_euclidean_distance current_vector search_vector, current) = Some best"
      and z: "zoom_in graph stored current_vector node_layer (descent_layer - 1) (snd best)
              = Some closest"
      by (subst (asm) zoom_in.simps) (auto split: option.splits)
    from n "1.prems"(1) have "neighbor_ids = []"
      by (rule edge_free_neighbors [rotated])
    with s have best: "best = (calculate_euclidean_distance current_vector search_vector, current)"
      by simp
    from "1.IH" [OF True v n s [unfolded best] refl "1.prems"(1)] z best
    show ?thesis
      by simp
  qed
qed

lemma heapify_up_root: "heapify_up queue 0 = queue"
  by (subst heapify_up.simps) (simp add: should_swap_def)

lemma insert_candidate_first:
  "insert_candidate (create_priority_queue cap is_max) n d = Some queue
   \<Longrightarrow> queue = \<lparr>candidates = [\<lparr>node_id = n, distance = d\<rparr>], capacity = cap,
                  is_max_heap = is_max\<rparr>"
  by (auto simp: insert_candidate_def create_priority_queue_def queue_size_def
      root_candidate_def heapify_up_root split: if_splits)

lemma insert_candidate_first_ok:
  "1 \<le> cap \<Longrightarrow> insert_candidate (create_priority_queue cap is_max) n d
     = Some \<lparr>candidates = [\<lparr>node_id = n, distance = d\<rparr>], capacity = cap, is_max_heap = is_max\<rparr>"
  by (simp add: insert_candidate_def create_priority_queue_def queue_size_def heapify_up_root)

lemma beam_loop_edge_free:
  assumes "edge_free graph" and "candidates layer_candidates = [seed]"
    and "beam_loop graph stored current_vector connection_layer width
           (layer_candidates, visited_nodes) = Some searched"
  shows "searched = (layer_candidates\<lparr>candidates := []\<rparr>, visited_nodes)"
proof -
  have popped: "extract_top_candidate layer_candidates
                 = Some (seed, layer_candidates\<lparr>candidates := []\<rparr>)"
    using assms(2) by (simp add: extract_top_candidate_def)
  from assms(3) obtain neighbor_ids queues' where
    n: "neighbors_to_explore graph (node_id seed) connection_layer = Some neighbor_ids"
    and e: "explore_for_insertion stored current_vector width neighbor_ids
              (layer_candidates\<lparr>candidates := []\<rparr>, visited_nodes) = Some queues'"
    and b: "beam_loop graph stored current_vector connection_layer width queues' = Some searched"
    using assms(2) popped
    by (subst (asm) beam_loop.simps) (auto simp: queue_size_def split: bind_splits)
  from n assms(1) have "neighbor_ids = []"
    by (rule edge_free_neighbors [rotated])
  with e have "queues' = (layer_candidates\<lparr>candidates := []\<rparr>, visited_nodes)"
    by simp
  with b show ?thesis
    by (subst (asm) beam_loop.simps) (simp add: queue_size_def)
qed


lemma drain_candidates_empty:
  "candidates layer_candidates = []
   \<Longrightarrow> drain_candidates layer_candidates max_conn [] = Some (layer_candidates, [])"
  by (subst drain_candidates.simps) (simp add: queue_size_def)

lemma connect_layers_edge_free:
  "edge_free graph \<Longrightarrow>
   connect_layers stored current_node_id current_vector width current_search_node
     connection_layer graph = Some graph'
   \<Longrightarrow> graph' = graph"
proof (induction stored current_node_id current_vector width current_search_node
    connection_layer graph rule: connect_layers.induct)
  case (1 stored current_node_id current_vector width current_search_node connection_layer graph)
  show ?case
  proof (cases "connection_layer \<ge> 0")
    case False
    with "1.prems" show ?thesis
      by (simp add: connect_layers.simps)
  next
    case True
    let ?max_conn = "if connection_layer = 0 then max_connections_layer_zero graph
                     else max_connections_per_node graph"
    from "1.prems"(2) True obtain search_vector layer_candidates visited_nodes searched drained graph1
      where v: "element_at stored current_search_node = Some search_vector"
        and c: "insert_candidate (create_priority_queue width False) current_search_node
                  (calculate_euclidean_distance current_vector search_vector)
                = Some layer_candidates"
        and vn: "insert_candidate (create_priority_queue (width * 2) True) current_search_node
                  (calculate_euclidean_distance current_vector search_vector)
                = Some visited_nodes"
        and b: "beam_loop graph stored current_vector connection_layer width
                  (layer_candidates, visited_nodes) = Some searched"
        and d: "drain_candidates (fst searched) ?max_conn [] = Some drained"
        and s: "connect_selected graph current_node_id connection_layer
                  (select_connections (snd drained) ?max_conn []) = Some graph1"
        and r: "connect_layers stored current_node_id current_vector width current_search_node
                  (connection_layer - 1) graph1 = Some graph'"
      by (subst (asm) connect_layers.simps) (auto split: bind_splits)
    from c have "candidates layer_candidates
                 = [\<lparr>node_id = current_search_node,
                     distance = calculate_euclidean_distance current_vector search_vector\<rparr>]"
      by (auto dest: insert_candidate_first)
    from beam_loop_edge_free [OF "1.prems"(1) this b]
    have "candidates (fst searched) = []"
      by simp
    with d have "snd drained = []"
      by (auto simp: drain_candidates_empty)
    with s have graph1: "graph1 = graph"
      by simp
    from "1.IH" [OF True v c vn b d s] r graph1 "1.prems"(1) show ?thesis
      by simp
  qed
qed

lemma insert_node_edge_free:
  "edge_free graph \<Longrightarrow> insert_node stored width current_node_id graph = Some graph'
   \<Longrightarrow> graph' = graph"
  by (auto simp: insert_node_def split: bind_splits dest: connect_layers_edge_free)

lemma insert_remaining_nodes_edge_free:
  "edge_free graph \<Longrightarrow>
   insert_remaining_nodes stored width vector_count current_node_id graph = Some graph'
   \<Longrightarrow> graph' = graph"
proof (induction stored width vector_count current_node_id graph
    rule: insert_remaining_nodes.induct)
  case (1 stored width vector_count current_node_id graph)
  show ?case
  proof (cases "current_node_id < vector_count")
    case False
    with "1.prems" show ?thesis
      by (simp add: insert_remaining_nodes.simps)
  next
    case True
    from "1.prems"(2) True obtain graph1 where
      i: "insert_node stored width current_node_id graph = Some graph1"
      and r: "insert_remaining_nodes stored width vector_count (current_node_id + 1) graph1
              = Some graph'"
      by (subst (asm) insert_remaining_nodes.simps) (auto split: option.splits)
    from insert_node_edge_free [OF "1.prems"(1) i] have "graph1 = graph" .
    with "1.IH" [OF True i] r "1.prems"(1) show ?thesis
      by simp
  qed
qed

lemma edge_free_initialize_nodes:
  "edge_free graph \<Longrightarrow> edge_free (initialize_nodes sampled_layers vector_index graph)"
  by (induction sampled_layers vector_index graph rule: initialize_nodes.induct)
     (simp_all add: edge_free_def create_hnsw_node_def list_all_iff)

lemma edge_free_initial_graph:
  "edge_free (initial_graph stored sampled_layers m m0 level_factor width)"
  unfolding initial_graph_def
  by (rule edge_free_initialize_nodes) (simp add: edge_free_def)

lemma build_hnsw_graph_edge_free:
  "build_hnsw_graph stored sampled_layers m m0 level_factor width = Some graph
   \<Longrightarrow> graph = initial_graph stored sampled_layers m m0 level_factor width"
  unfolding build_hnsw_graph_def
  by (rule insert_remaining_nodes_edge_free [OF edge_free_initial_graph])


definition layered_node :: "int \<Rightarrow> HNSWNode \<Rightarrow> bool" where
  "layered_node graph_top node =
     (0 \<le> maximum_layer node \<and> maximum_layer node \<le> graph_top
      \<and> int (length (layer_connections node)) = maximum_layer node + 1)"

definition entry_chosen :: "HNSWGraph \<Rightarrow> bool" where
  "entry_chosen graph =
     (0 \<le> entry_point_node_id graph
      \<and> nat (entry_point_node_id graph) < length (nodes graph)
      \<and> maximum_layer (nodes graph ! nat (entry_point_node_id graph))
          = maximum_layer_in_graph graph)"

lemma initialize_nodes_invariant:
  assumes "vector_index = int (length (nodes graph))"
    and "list_all (layered_node (maximum_layer_in_graph graph)) (nodes graph)"
    and "if nodes graph = [] then entry_point_node_id graph = 0 \<and> maximum_layer_in_graph graph = 0
         else entry_chosen graph"
  shows "length (nodes (initialize_nodes sampled_layers vector_index graph))
           = length (nodes graph) + length sampled_layers
         \<and> list_all (layered_node (maximum_layer_in_graph
                         (initialize_nodes sampled_layers vector_index graph)))
             (nodes (initialize_nodes sampled_layers vector_index graph))
         \<and> (nodes (initialize_nodes sampled_layers vector_index graph) \<noteq> []
              \<longrightarrow> entry_chosen (initialize_nodes sampled_layers vector_index graph))"
  using assms
proof (induction sampled_layers vector_index graph rule: initialize_nodes.induct)
  case (1 vector_index graph)
  then show ?case
    by (auto split: if_splits)
next
  case (2 node_layer sampled_layers vector_index graph)
  let ?graph = "graph\<lparr>nodes := nodes graph @ [create_hnsw_node vector_index (int node_layer)],
              maximum_layer_in_graph :=
                (if int node_layer > maximum_layer_in_graph graph then int node_layer
                 else maximum_layer_in_graph graph),
              entry_point_node_id :=
                (if int node_layer > maximum_layer_in_graph graph then vector_index
                 else entry_point_node_id graph)\<rparr>"
  have new: "layered_node (maximum_layer_in_graph ?graph)
               (create_hnsw_node vector_index (int node_layer))"
    by (simp add: layered_node_def create_hnsw_node_def)
  have old: "list_all (layered_node (maximum_layer_in_graph ?graph)) (nodes graph)"
    using "2.prems"(2) by (auto simp: list_all_iff layered_node_def)
  have entry: "entry_chosen ?graph"
  proof (cases "nodes graph = []")
    case True
    with "2.prems" show ?thesis
      by (simp add: entry_chosen_def create_hnsw_node_def)
  next
    case False
    with "2.prems" show ?thesis
      by (auto simp: entry_chosen_def create_hnsw_node_def nth_append)
  qed
  have "length (nodes (initialize_nodes sampled_layers (vector_index + 1) ?graph))
           = length (nodes ?graph) + length sampled_layers
         \<and> list_all (layered_node (maximum_layer_in_graph
                         (initialize_nodes sampled_layers (vector_index + 1) ?graph)))
             (nodes (initialize_nodes sampled_layers (vector_index + 1) ?graph))
         \<and> (nodes (initialize_nodes sampled_layers (vector_index + 1) ?graph) \<noteq> []
              \<longrightarrow> entry_chosen (initialize_nodes sampled_layers (vector_index + 1) ?graph))"
  proof (rule "2.IH")
    show "vector_index + 1 = int (length (nodes ?graph))"
      using "2.prems"(1) by simp
    show "list_all (layered_node (maximum_layer_in_graph ?graph)) (nodes ?graph)"
      using new old by simp
    show "if nodes ?graph = []
          then entry_point_node_id ?graph = 0 \<and> maximum_layer_in_graph ?graph = 0
          else entry_chosen ?graph"
      using entry by simp
  qed
  then show ?case
    by simp
qed


definition ready_graph :: "Vector list \<Rightarrow> HNSWGraph \<Rightarrow> bool" where
  "ready_graph stored graph =
     (edge_free graph \<and> length (nodes graph) = length stored
      \<and> list_all (layered_node (maximum_layer_in_graph graph)) (nodes graph)
      \<and> entry_chosen graph)"

lemma element_at_Some: "0 \<le> i \<Longrightarrow> nat i < length xs \<Longrightarrow> element_at xs i = Some (xs ! nat i)"
  by (auto simp: element_at_def)

lemma neighbors_ready:
  assumes "ready_graph stored graph" "0 \<le> current" "nat current < length (nodes graph)"
    and "0 \<le> layer"
  shows "neighbors_to_explore graph current layer = Some []"
proof -
  let ?node = "nodes graph ! nat current"
  from assms have node: "?node \<in> set (nodes graph)"
    by simp
  with assms(1) have layers: "int (length (layer_connections ?node)) = maximum_layer ?node + 1"
    and empty: "\<forall>connections \<in> set (layer_connections ?node). connections = []"
    by (auto simp: ready_graph_def edge_free_def layered_node_def list_all_iff)
  show ?thesis
  proof (cases "layer \<le> maximum_layer ?node")
    case False
    with assms show ?thesis
      by (simp add: neighbors_to_explore_def element_at_Some)
  next
    case True
    with layers assms(4) have "nat layer < length (layer_connections ?node)"
      by simp
    with empty have "layer_connections ?node ! nat layer = []"
      by simp
    with True layers assms show ?thesis
      by (simp add: neighbors_to_explore_def element_at_Some)
  qed
qed

lemma zoom_in_ready:
  assumes "ready_graph stored graph" "0 \<le> current" "nat current < length (nodes graph)"
    and "0 \<le> node_layer"
  shows "zoom_in graph stored current_vector node_layer descent_layer current = Some current"
  using assms
proof (induction graph stored current_vector node_layer descent_layer current
    rule: zoom_in.induct)
  case (1 graph stored current_vector node_layer descent_layer current)
  show ?case
  proof (cases "descent_layer > node_layer")
    case False
    then show ?thesis
      by (simp add: zoom_in.simps)
  next
    case True
    have v: "element_at stored current = Some (stored ! nat current)"
      using "1.prems" by (simp add: element_at_Some ready_graph_def)
    have n: "neighbors_to_explore graph current descent_layer = Some []"
      using "1.prems" True by (intro neighbors_ready) simp_all
    have s: "greedy_scan stored current_vector []
               (calculate_euclidean_distance current_vector (stored ! nat current), current)
             = Some (calculate_euclidean_distance current_vector (stored ! nat current), current)"
      by simp
    from "1.IH" [OF True v n s refl "1.prems"] True v n show ?thesis
      by (subst zoom_in.simps) simp
  qed
qed

lemma beam_loop_ready:
  assumes "ready_graph stored graph" and "candidates layer_candidates = [seed]"
    and "0 \<le> node_id seed" "nat (node_id seed) < length (nodes graph)" "0 \<le> connection_layer"
  shows "beam_loop graph stored current_vector connection_layer width
           (layer_candidates, visited_nodes)
         = Some (layer_candidates\<lparr>candidates := []\<rparr>, visited_nodes)"
proof -
  have popped: "extract_top_candidate layer_candidates
                 = Some (seed, layer_candidates\<lparr>candidates := []\<rparr>)"
    using assms(2) by (simp add: extract_top_candidate_def)
  have n: "neighbors_to_explore graph (node_id seed) connection_layer = Some []"
    using assms by (intro neighbors_ready) simp_all
  have "beam_loop graph stored current_vector connection_layer width
           (layer_candidates, visited_nodes)
        = beam_loop graph stored current_vector connection_layer width
           (layer_candidates\<lparr>candidates := []\<rparr>, visited_nodes)"
    using assms(2) popped n
    by (subst beam_loop.simps) (simp add: queue_size_def)
  also have "\<dots> = Some (layer_candidates\<lparr>candidates := []\<rparr>, visited_nodes)"
    by (subst beam_loop.simps) (simp add: queue_size_def)
  finally show ?thesis .
qed

lemma connect_layers_ready:
  assumes "ready_graph stored graph" "1 \<le> width"
    and "0 \<le> current_search_node" "nat current_search_node < length (nodes graph)"
  shows "connect_layers stored current_node_id current_vector width current_search_node
           connection_layer graph = Some graph"
  using assms
proof (induction stored current_node_id current_vector width current_search_node
    connection_layer graph rule: connect_layers.induct)
  case (1 stored current_node_id current_vector width current_search_node connection_layer graph)
  show ?case
  proof (cases "connection_layer \<ge> 0")
    case False
    then show ?thesis
      by (simp add: connect_layers.simps)
  next
    case True
    let ?d = "calculate_euclidean_distance current_vector (stored ! nat current_search_node)"
    let ?seed = "\<lparr>node_id = current_search_node, distance = ?d\<rparr>"
    let ?lc = "\<lparr>candidates = [?seed], capacity = width, is_max_heap = False\<rparr>"
    let ?vn = "\<lparr>candidates = [?seed], capacity = width * 2, is_max_heap = True\<rparr>"
    let ?max_conn = "if connection_layer = 0 then max_connections_layer_zero graph
                     else max_connections_per_node graph"
    have v: "element_at stored current_search_node = Some (stored ! nat current_search_node)"
      using "1.prems" by (simp add: element_at_Some ready_graph_def)
    have c: "insert_candidate (create_priority_queue width False) current_search_node ?d = Some ?lc"
      using "1.prems" by (simp add: insert_candidate_first_ok)
    have vn: "insert_candidate (create_priority_queue (width * 2) True) current_search_node ?d
              = Some ?vn"
      using "1.prems" by (simp add: insert_candidate_first_ok)
    have b: "beam_loop graph stored current_vector connection_layer width (?lc, ?vn)
             = Some (?lc\<lparr>candidates := []\<rparr>, ?vn)"
      using "1.prems" True by (intro beam_loop_ready [where seed = ?seed]) simp_all
    have d: "drain_candidates (fst (?lc\<lparr>candidates := []\<rparr>, ?vn)) ?max_conn []
             = Some (?lc\<lparr>candidates := []\<rparr>, [])"
      by (simp add: drain_candidates_empty)
    have s: "connect_selected graph current_node_id connection_layer
               (select_connections (snd (?lc\<lparr>candidates := []\<rparr>, [])) ?max_conn []) = Some graph"
      by simp
    from "1.IH" [OF True v c vn b d s "1.prems"] True v c vn b d s show ?thesis
      by (subst connect_layers.simps) simp
  qed
qed

lemma insert_node_ready:
  assumes "ready_graph stored graph" "1 \<le> width"
    and "0 \<le> current_node_id" "nat current_node_id < length stored"
  shows "insert_node stored width current_node_id graph = Some graph"
proof -
  let ?node = "nodes graph ! nat current_node_id"
  from assms have in_range: "nat current_node_id < length (nodes graph)"
    and entry: "0 \<le> entry_point_node_id graph"
      "nat (entry_point_node_id graph) < length (nodes graph)"
    by (simp_all add: ready_graph_def entry_chosen_def)
  with assms have "?node \<in> set (nodes graph)"
    by simp
  with assms(1) have "0 \<le> maximum_layer ?node"
    by (auto simp: ready_graph_def layered_node_def list_all_iff)
  with assms in_range entry show ?thesis
    by (simp add: insert_node_def element_at_Some zoom_in_ready connect_layers_ready)
qed

lemma insert_remaining_nodes_ready:
  "ready_graph stored graph \<Longrightarrow> 1 \<le> width \<Longrightarrow> vector_count = int (length stored)
   \<Longrightarrow> 0 \<le> current_node_id
   \<Longrightarrow> insert_remaining_nodes stored width vector_count current_node_id graph = Some graph"
proof (induction stored width vector_count current_node_id graph
    rule: insert_remaining_nodes.induct)
  case (1 stored width vector_count current_node_id graph)
  show ?case
  proof (cases "current_node_id < vector_count")
    case False
    then show ?thesis
      by (simp add: insert_remaining_nodes.simps)
  next
    case True
    with "1.prems" have i: "insert_node stored width current_node_id graph = Some graph"
      by (intro insert_node_ready) simp_all
    from "1.IH" [OF True i] "1.prems" True i show ?thesis
      by (subst insert_remaining_nodes.simps) simp
  qed
qed

lemma ready_initial_graph:
  assumes "length sampled_layers = length stored" "stored \<noteq> []"
  shows "ready_graph stored (initial_graph stored sampled_layers m m0 level_factor width)"
proof -
  let ?empty = "\<lparr>nodes = [], node_count = int (length stored), original_vectors = stored,
        entry_point_node_id = 0, maximum_layer_in_graph = 0,
        max_connections_per_node = m, max_connections_layer_zero = m0,
        level_generation_factor = level_factor, construction_search_width = width\<rparr>"
  let ?graph = "initialize_nodes (take (length stored) sampled_layers) 0 ?empty"
  from initialize_nodes_invariant [of 0 ?empty "take (length stored) sampled_layers"] assms
  have len: "length (nodes ?graph) = length stored"
    and layered: "list_all (layered_node (maximum_layer_in_graph ?graph)) (nodes ?graph)"
    and entry: "nodes ?graph \<noteq> [] \<longrightarrow> entry_chosen ?graph"
    by simp_all
  from len assms(2) have "nodes ?graph \<noteq> []"
    by auto
  with entry len layered edge_free_initial_graph [of stored sampled_layers m m0 level_factor width]
  show ?thesis
    by (simp add: ready_graph_def initial_graph_def)
qed

lemma build_hnsw_graph_returns:
  assumes "length sampled_layers = length stored" "1 \<le> width"
  shows "build_hnsw_graph stored sampled_layers m m0 level_factor width
         = Some (initial_graph stored sampled_layers m m0 level_factor width)"
proof (cases "stored = []")
  case True
  then show ?thesis
    by (simp add: build_hnsw_graph_def insert_remaining_nodes.simps)
next
  case False
  with assms show ?thesis
    unfolding build_hnsw_graph_def
    by (intro insert_remaining_nodes_ready ready_initial_graph) simp_all
qed



lemma layer_zero_links_edge_free:
  assumes "edge_free graph"
    and "list_all (layered_node graph_top) (nodes graph)"
  shows "layer_zero_links graph = {}"
proof -
  have "layer_connections (nodes graph ! a) ! 0 = []" if "a < length (nodes graph)" for a
  proof -
    from that have node: "nodes graph ! a \<in> set (nodes graph)"
      by simp
    with assms(2) have "0 < length (layer_connections (nodes graph ! a))"
      by (auto simp: list_all_iff layered_node_def)
    with node assms(1) show ?thesis
      by (auto simp: edge_free_def list_all_iff)
  qed
  then show ?thesis
    by (auto simp: layer_zero_links_def)
qed

lemma build_hnsw_graph_not_connected:
  assumes "build_hnsw_graph stored sampled_layers m m0 level_factor width = Some graph"
    and "length sampled_layers = length stored" and "2 \<le> length stored"
  shows "\<not> weakly_connected_at_layer_zero graph"
proof -
  from assms(1) have graph: "graph = initial_graph stored sampled_layers m m0 level_factor width"
    by (rule build_hnsw_graph_edge_free)
  from assms(3) have "stored \<noteq> []"
    by (cases stored) simp_all
  with assms(2) have "ready_graph stored graph"
    unfolding graph by (rule ready_initial_graph)
  then have free: "edge_free graph"
    and layered: "list_all (layered_node (maximum_layer_in_graph graph)) (nodes graph)"
    and len: "length (nodes graph) = length stored"
    by (simp_all add: ready_graph_def)
  from layer_zero_links_edge_free [OF free layered] have "(layer_zero_links graph)\<^sup>* = Id"
    by simp
  moreover have "(0 :: nat, 1 :: nat) \<notin> Id"
    by simp
  moreover from len assms(3) have "0 < length (nodes graph)" "1 < length (nodes graph)"
    by arith+
  then have "0 \<in> set [0 ..< length (nodes graph)]"
    and "1 \<in> set [0 ..< length (nodes graph)]"
    by simp_all
  ultimately show ?thesis
    unfolding weakly_connected_at_layer_zero_def list_all_iff by metis
qed


lemma two_vectors_built:
  "build_hnsw_graph [[0], [1]] [0, 0] 16 32 (1 / 3) 32
   = Some (initial_graph [[0], [1]] [0, 0] 16 32 (1 / 3) 32)"
  by (rule build_hnsw_graph_returns) simp_all

lemma two_vectors_nodes:
  "nodes (initial_graph [[0], [1]] [0, 0] 16 32 (1 / 3) 32)
   = [create_hnsw_node 0 0, create_hnsw_node 1 0]"
  by (simp add: initial_graph_def)

text \<open>
  Claim C1 fails on the code. The beam search of the build runs until
  \<^verbatim>\<open>layer_candidates\<close> is empty, and the connections are then selected from that empty
  queue: no connection is ever made (\<open>build_hnsw_graph_edge_free\<close>), so no graph that
  \<^verbatim>\<open>build_hnsw_graph\<close> returns for two or more vectors is weakly connected at layer 0
  (\<open>build_hnsw_graph_not_connected\<close>). Here for two vectors.
\<close>

theorem build_two_vectors_not_connected:
  "build_hnsw_graph [[0], [1]] [0, 0] 16 32 (1 / 3) 32
     = Some (initial_graph [[0], [1]] [0, 0] 16 32 (1 / 3) 32)
   \<and> map layer_connections (nodes (initial_graph [[0], [1]] [0, 0] 16 32 (1 / 3) 32))
       = [[[]], [[]]]
   \<and> \<not> weakly_connected_at_layer_zero (initial_graph [[0], [1]] [0, 0] 16 32 (1 / 3) 32)"
proof (intro conjI)
  show "build_hnsw_graph [[0], [1]] [0, 0] 16 32 (1 / 3) 32
     = Some (initial_graph [[0], [1]] [0, 0] 16 32 (1 / 3) 32)"
    by (rule two_vectors_built)
  show "map layer_connections (nodes (initial_graph [[0], [1]] [0, 0] 16 32 (1 / 3) 32))
       = [[[]], [[]]]"
    unfolding two_vectors_nodes by (simp add: create_hnsw_node_def)
  show "\<not> weakly_connected_at_layer_zero (initial_graph [[0], [1]] [0, 0] 16 32 (1 / 3) 32)"
    using two_vectors_built by (rule build_hnsw_graph_not_connected) simp_all
qed



section \<open>The priority queue as a binary heap\<close>




lemma candidates_swap [simp]:
  "candidates (swap_candidates queue a b)
   = (candidates queue)[a := candidates queue ! b, b := candidates queue ! a]"
  by (simp add: swap_candidates_def)

lemma is_max_heap_swap [simp]: "is_max_heap (swap_candidates queue a b) = is_max_heap queue"
  by (simp add: swap_candidates_def)

lemma capacity_swap [simp]: "capacity (swap_candidates queue a b) = capacity queue"
  by (simp add: swap_candidates_def)






lemma capacity_heapify_up [simp]: "capacity (heapify_up queue i) = capacity queue"
proof (induction queue i rule: heapify_up.induct)
  case (1 queue i)
  then show ?case by (subst heapify_up.simps) simp
qed

lemma is_max_heap_heapify_up [simp]: "is_max_heap (heapify_up queue i) = is_max_heap queue"
proof (induction queue i rule: heapify_up.induct)
  case (1 queue i)
  then show ?case by (subst heapify_up.simps) simp
qed

lemma capacity_heapify_down [simp]: "capacity (heapify_down queue i) = capacity queue"
proof (induction queue i rule: heapify_down.induct)
  case (1 queue i)
  then show ?case by (subst heapify_down.simps) simp
qed

lemma is_max_heap_heapify_down [simp]: "is_max_heap (heapify_down queue i) = is_max_heap queue"
proof (induction queue i rule: heapify_down.induct)
  case (1 queue i)
  then show ?case by (subst heapify_down.simps) simp
qed






















section \<open>The beam search of one layer\<close>


















text \<open>
  Two graphs to run the search on, with one-dimensional vectors: two nodes linked to each
  other, and a node linked to two others.
\<close>

definition two_node_graph :: HNSWGraph where
  "two_node_graph =
     \<lparr>nodes = [\<lparr>vector_id = 0, maximum_layer = 0, layer_connections = [[1]],
                 allocated_connection_sizes = [32]\<rparr>,
               \<lparr>vector_id = 1, maximum_layer = 0, layer_connections = [[0]],
                 allocated_connection_sizes = [32]\<rparr>],
      node_count = 2, original_vectors = [[2], [1]], entry_point_node_id = 0,
      maximum_layer_in_graph = 0, max_connections_per_node = 16,
      max_connections_layer_zero = 32, level_generation_factor = 1,
      construction_search_width = 200\<rparr>"




section \<open>Argument checks of the search entry points\<close>

text \<open>\<^verbatim>\<open>brute_force_knn_search\<close> turns every invalid argument away (lines 528--533).\<close>

lemma brute_force_knn_search_invalid:
  "stored = None \<or> vector_count \<le> 0 \<or> query = None \<or> k \<le> 0 \<or> \<not> out_count
   \<Longrightarrow> brute_force_knn_search stored vector_count query k similarity_threshold out_count
       = Some (Null, if out_count then Some 0 else None)"
  by (auto simp: brute_force_knn_search_def split: option.splits)

text \<open>
  Claim C7. \<^verbatim>\<open>brute_force_knn_search\<close> returns a null pointer for an empty array, a
  null query and \<open>k = 0\<close>; \<^verbatim>\<open>knn_search\<close> and \<^verbatim>\<open>hnsw_knn_search\<close> test none of
  their arguments. On an index that stores no vector \<^verbatim>\<open>knn_search\<close> returns an array of
  \<open>k\<close> sentinels, not a null pointer, also when the query is null, since the loop that
  would read the query runs zero times. When a vector is stored, a null query is
  dereferenced. \<^verbatim>\<open>hnsw_knn_search\<close> with \<open>k = 0\<close> returns the
  result of \<^verbatim>\<open>malloc(0)\<close>, and dereferences a null query in its first distance
  computation.
\<close>

theorem knn_search_no_argument_check:
  "brute_force_knn_search (Some []) 0 (Some [0]) 1 0 True = Some (Null, Some 0)
   \<and> brute_force_knn_search (Some [[0]]) 1 None 1 0 True = Some (Null, Some 0)
   \<and> brute_force_knn_search (Some [[0]]) 1 (Some [0]) 0 0 True = Some (Null, Some 0)
   \<and> knn_search (create_index [] 0) (Some [0]) 1 = Some (Ptr [- 1])
   \<and> knn_search (create_index [] 0) None 1 = Some (Ptr [- 1])
   \<and> knn_search (create_index [[0]] 1) None 1 = None
   \<and> hnsw_knn_search
         \<lparr>vectors = [[2], [1]], index_len = 2, hnsw_graph = Some two_node_graph,
           use_hnsw_optimization = 1\<rparr>
         (Some [0]) 0
         (Some \<lparr>search_width = 1, max_distance_computations = 10,
                 accuracy_threshold = 1, use_approximate_search = 0\<rparr>)
       = Some (Ptr [])
   \<and> hnsw_knn_search
         \<lparr>vectors = [[2], [1]], index_len = 2, hnsw_graph = Some two_node_graph,
           use_hnsw_optimization = 1\<rparr>
         None 1
         (Some \<lparr>search_width = 1, max_distance_computations = 10,
                 accuracy_threshold = 1, use_approximate_search = 0\<rparr>)
       = None"
proof (intro conjI)
  show "brute_force_knn_search (Some []) 0 (Some [0]) 1 0 True = Some (Null, Some 0)"
    "brute_force_knn_search (Some [[0]]) 1 None 1 0 True = Some (Null, Some 0)"
    "brute_force_knn_search (Some [[0]]) 1 (Some [0]) 0 0 True = Some (Null, Some 0)"
    by (simp_all add: brute_force_knn_search_def)
  show "knn_search (create_index [] 0) (Some [0]) 1 = Some (Ptr [- 1])"
    by (simp add: knn_search_def create_index_def brute_force_loop.simps)
  show "knn_search (create_index [] 0) None 1 = Some (Ptr [- 1])"
    by (simp add: knn_search_def create_index_def brute_force_loop.simps)
  show "knn_search (create_index [[0]] 1) None 1 = None"
    by (simp add: knn_search_def create_index_def brute_force_loop.simps)
  have layer0: "search_layer two_node_graph [0] 0 0 1 = Some [1, 0]"
    by (simp add: search_layer_def search_layer_visit_def two_node_graph_def element_at_def distance_one_dimension
      create_priority_queue_def insert_candidate_def queue_size_def heapify_up.simps
      heapify_down.simps should_swap_def search_loop.simps extract_top_candidate_def
      search_exhausted_def root_candidate_def neighbors_to_explore_def
      improves_candidates_def heapify_target_def better_child_def swap_candidates_def)
  have top: "maximum_layer_in_graph two_node_graph = 0" "entry_point_node_id two_node_graph = 0"
    by (simp_all add: two_node_graph_def)
  show "hnsw_knn_search
         \<lparr>vectors = [[2], [1]], index_len = 2, hnsw_graph = Some two_node_graph,
           use_hnsw_optimization = 1\<rparr>
         (Some [0]) 0
         (Some \<lparr>search_width = 1, max_distance_computations = 10,
                 accuracy_threshold = 1, use_approximate_search = 0\<rparr>)
       = Some (Ptr [])"
    by (simp add: hnsw_knn_search_def greedy_descent.simps top layer0)
  show "hnsw_knn_search
         \<lparr>vectors = [[2], [1]], index_len = 2, hnsw_graph = Some two_node_graph,
           use_hnsw_optimization = 1\<rparr>
         None 1
         (Some \<lparr>search_width = 1, max_distance_computations = 10,
                 accuracy_threshold = 1, use_approximate_search = 0\<rparr>)
       = None"
    by (simp add: hnsw_knn_search_def)
qed

end
